theory Spec2Isabelle
  imports Complex_Main "HOL-Library.Word"
begin

section \<open>The plotter pipelines: data model\<close>

text \<open>
  The two programs \<^verbatim>\<open>it_plotter.py\<close> (current against time) and \<^verbatim>\<open>iv_plotter.py\<close>
  (current against voltage) are message handlers over module-level state. The model
  threads that state explicitly.

  Numbers. Python floats are modelled as real numbers: no rounding, and no overflow of the
  exponent. The current-vs-time program computes with Python numbers only, whose
  integers are unbounded and where a division by zero raises \<^verbatim>\<open>ZeroDivisionError\<close>.
  The current-vs-voltage program computes with numpy arrays. There a division by zero
  raises nothing and yields \<^verbatim>\<open>inf\<close>, \<^verbatim>\<open>-inf\<close> or \<^verbatim>\<open>nan\<close>; these three are lumped
  into one element \<open>NonFinite\<close>, which the operations the program uses (elementwise
  product, division by a scalar) never leave. And there a sweep of integers only is an
  array of 64-bit integers, whose products wrap around: see \<open>pynum\<close> and \<open>np_array\<close>
  below.
\<close>

datatype error = DecodeError | TypeError | KeyError | IndexError | ValueError | ZeroDivisionError

datatype npfloat = Fin real | NonFinite

fun np_mul :: "npfloat \<Rightarrow> npfloat \<Rightarrow> npfloat" where
  "np_mul (Fin a) (Fin b) = Fin (a * b)"
| "np_mul _ _ = NonFinite"

fun np_div :: "npfloat \<Rightarrow> real \<Rightarrow> npfloat" where
  "np_div (Fin a) d = (if d = 0 then NonFinite else Fin (a / d))"
| "np_div NonFinite d = NonFinite"

text \<open>
  A two-dimensional numpy array of shape \<open>(length (rows a), ncols a)\<close>. The column count
  is kept apart from the rows because an array with no rows still has one
  (\<^verbatim>\<open>np.empty((0, 3))\<close>).
\<close>

record 'a ndarray =
  ncols :: nat
  rows :: "'a list list"

definition np_empty :: "nat \<Rightarrow> 'a ndarray" where
  \<comment> \<open>\<^verbatim>\<open>np.empty((0, c))\<close>\<close>
  "np_empty c = \<lparr>ncols = c, rows = []\<rparr>"

definition len :: "'a ndarray \<Rightarrow> nat" where
  \<comment> \<open>\<^verbatim>\<open>len(data)\<close>: the size of the first axis\<close>
  "len a = length (rows a)"

definition np_append_axis0 :: "'a ndarray \<Rightarrow> 'a ndarray \<Rightarrow> error + 'a ndarray" where
  \<comment> \<open>\<^verbatim>\<open>np.append(a, b, axis=0)\<close>: a new array; the column counts must agree\<close>
  "np_append_axis0 a b =
     (if ncols a \<noteq> ncols b then Inl ValueError
      else Inr \<lparr>ncols = ncols a, rows = rows a @ rows b\<rparr>)"

definition np_append_axis1 :: "'a ndarray \<Rightarrow> 'a ndarray \<Rightarrow> error + 'a ndarray" where
  \<comment> \<open>\<^verbatim>\<open>np.append(a, b, axis=1)\<close>: a new array; the row counts must agree\<close>
  "np_append_axis1 a b =
     (if length (rows a) \<noteq> length (rows b) then Inl ValueError
      else Inr \<lparr>ncols = ncols a + ncols b, rows = map2 (@) (rows a) (rows b)\<rparr>)"

text \<open>
  The decoded payload of a message: the dictionary keys the handlers read. A key that
  is absent is \<open>None\<close>, and reading it raises \<^verbatim>\<open>KeyError\<close>. \<open>pixel_area\<close> stands for
  \<^verbatim>\<open>payload["pixel"]["area"]\<close>. The type \<open>'d\<close> of the \<^verbatim>\<open>data\<close> entry is a list of
  numbers for the current-vs-time kind and a list of rows for the current-vs-voltage kind.
\<close>

type_synonym cfg = "(string \<times> string) list"

record 'd payload =
  clear :: "bool option"
  data :: "'d option"
  pixel_area :: "real option"
  idn :: string
  config_entry :: "cfg option"

text \<open>What \<^verbatim>\<open>pickle.loads\<close> returns, as far as the handlers tell values apart.\<close>

datatype 'd pyobj = PBool bool | PDict "'d payload"

text \<open>An MQTT message; \<open>body = None\<close> when \<^verbatim>\<open>pickle.loads(msg.payload)\<close> raises.\<close>

record 'd mqtt_msg =
  topic :: string
  body :: "'d pyobj option"

text \<open>
  A snapshot \<^verbatim>\<open>{"msg": ..., "data": ...}\<close>. The array is held by reference: \<open>data_ref\<close>
  is an address in the store of arrays.
\<close>

record 'd snapshot =
  msg :: "'d payload"
  data_ref :: nat

text \<open>
  The steps of a handler that act on something outside its local variables, in the order
  in which they happen: starting the thread that publishes a pickled payload on a topic
  (\<^verbatim>\<open>_publish\<close>), folding the record into the array of the series at an address
  (\<^verbatim>\<open>np.append\<close> with the time offsets, the seeding, or the assignment in place), and
  appending a snapshot to the one-slot deque.
\<close>

datatype 'd effect = Publish string "'d payload" | Fold nat | CachePush "'d snapshot"

text \<open>
  The module state: the store of numpy arrays, the one-slot deques \<^verbatim>\<open>graph4_latest\<close>
  or \<^verbatim>\<open>graph2_latest\<close> (\<open>latest\<close>) and \<^verbatim>\<open>paused\<close>, the global \<^verbatim>\<open>config\<close>, and the
  effects so far.
\<close>

record ('d, 'a) plotter =
  heap :: "'a ndarray list"
  latest :: "'d snapshot"
  paused :: "'d pyobj"
  config :: cfg
  trace :: "'d effect list"

definition alloc :: "'a ndarray \<Rightarrow> ('d, 'a) plotter \<Rightarrow> nat \<times> ('d, 'a) plotter" where
  \<comment> \<open>a newly created array gets an address no snapshot holds\<close>
  "alloc a s = (length (heap s), s\<lparr>heap := heap s @ [a]\<rparr>)"

definition series :: "('d, 'a) plotter \<Rightarrow> 'd snapshot \<Rightarrow> 'a ndarray" where
  \<comment> \<open>what a reader holding the snapshot sees as its \<^verbatim>\<open>"data"\<close>\<close>
  "series s sn = heap s ! data_ref sn"

definition publish :: "string \<Rightarrow> 'd payload \<Rightarrow> ('d, 'a) plotter \<Rightarrow> ('d, 'a) plotter" where
  \<comment> \<open>\<^verbatim>\<open>_publish(topic, pickle.dumps(payload))\<close>: the thread is started, not awaited\<close>
  "publish tp pl s = s\<lparr>trace := trace s @ [Publish tp pl]\<rparr>"

definition push_latest :: "'d snapshot \<Rightarrow> ('d, 'a) plotter \<Rightarrow> ('d, 'a) plotter" where
  \<comment> \<open>\<^verbatim>\<open>graphN_latest.append(...)\<close> on a deque with \<^verbatim>\<open>maxlen=1\<close>\<close>
  "push_latest sn s = s\<lparr>latest := sn, trace := trace s @ [CachePush sn]\<rparr>"

definition fold_in :: "nat \<Rightarrow> ('d, 'a) plotter \<Rightarrow> ('d, 'a) plotter" where
  \<comment> \<open>the record has been folded into the array at the address \<open>r\<close>\<close>
  "fold_in r s = s\<lparr>trace := trace s @ [Fold r]\<rparr>"

definition init :: "nat \<Rightarrow> ('d, 'a) plotter" where
  \<comment> \<open>the module-level initialisation, with \<open>c\<close> the kind's column count\<close>
  "init c =
     \<lparr>heap = [np_empty c],
      latest = \<lparr>msg = \<lparr>clear = Some True, data = None, pixel_area = None, idn = ''-'',
                        config_entry = None\<rparr>,
                data_ref = 0\<rparr>,
      paused = PBool False,
      config = [],
      trace = []\<rparr>"

definition read_config ::
  "'d pyobj \<Rightarrow> ('d, 'a) plotter \<Rightarrow> (error \<times> ('d, 'a) plotter) + ('d, 'a) plotter" where
  "read_config obj s =
     (case obj of
        PBool _ \<Rightarrow> Inl (TypeError, s)
      | PDict pl \<Rightarrow>
          (case config_entry pl of
             None \<Rightarrow> Inl (KeyError, s)
           | Some c \<Rightarrow> Inr (s\<lparr>config := c\<rparr>)))"

section \<open>Current against time (\<^verbatim>\<open>it_plotter.py\<close>)\<close>

text \<open>
  \<^verbatim>\<open>process_ivt\<close>: the list \<^verbatim>\<open>payload["data"]\<close> is extended in place by \<open>j\<close> and \<open>p\<close>,
  the payload is published, and the extended list is returned. Every exception is raised
  before the publication. The result carries the payload as mutated, since the caller's
  dictionary is the same object.
\<close>

definition process_ivt ::
  "real list payload \<Rightarrow> string \<Rightarrow> (real list, real) plotter \<Rightarrow>
     error + (real list \<times> real list payload \<times> (real list, real) plotter)" where
  "process_ivt pl kind s =
     (case data pl of
        None \<Rightarrow> Inl KeyError
      | Some d \<Rightarrow>
          (case pixel_area pl of
             None \<Rightarrow> Inl KeyError
           | Some area \<Rightarrow>
               if length d \<le> 1 then Inl IndexError
               else if area = 0 then Inl ZeroDivisionError
               else
                 let j = d ! 1 * 1000 / area;
                     p = d ! 0 * j;
                     d' = d @ [j, p];
                     pl' = pl\<lparr>data := Some d'\<rparr>
                 in Inr (d', pl', publish (''data/processed/'' @ kind) pl' s)))"

definition t_scale :: "real ndarray \<Rightarrow> real ndarray" where
  \<comment> \<open>\<^verbatim>\<open>t_scaled = data[:, -1] - data[0, -1]; data[:, 0] = t_scaled\<close>, on an array
      with at least one row and one column\<close>
  "t_scale a =
     (let t0 = hd (rows a) ! (ncols a - 1)
      in a\<lparr>rows := map (\<lambda>r. r[0 := r ! (ncols a - 1) - t0]) (rows a)\<rparr>)"

definition it_accumulate :: "real ndarray \<Rightarrow> real list \<Rightarrow> error + real ndarray" where
  \<comment> \<open>the non-clear branch of \<^verbatim>\<open>on_message\<close> after \<^verbatim>\<open>process_ivt\<close> has returned
      \<open>pdata\<close>, which has at least four entries\<close>
  "it_accumulate a pdata =
     (if length pdata \<le> 2 then Inl IndexError
      else if length pdata \<le> 4 then Inl IndexError
      else
        let t = pdata ! 2; j = pdata ! 4
        in (case np_append_axis0 a \<lparr>ncols = 3, rows = [[0, j, t]]\<rparr> of
              Inl e \<Rightarrow> Inl e
            | Inr a' \<Rightarrow> Inr (t_scale a')))"

definition it_on_message ::
  "(real list, real) plotter \<Rightarrow> real list mqtt_msg \<Rightarrow>
     (error \<times> (real list, real) plotter) + (real list, real) plotter" where
  "it_on_message s m =
     (case body m of
        None \<Rightarrow> Inl (DecodeError, s)
      | Some obj \<Rightarrow>
          if topic m = ''data/raw/it_measurement'' then
            (case obj of
               PBool _ \<Rightarrow> Inl (TypeError, s)
             | PDict pl \<Rightarrow>
                 (case clear pl of
                    None \<Rightarrow> Inl (KeyError, s)
                  | Some c \<Rightarrow>
                      if c then
                        (let (r, s1) = alloc (np_empty 3) s
                         in Inr (push_latest \<lparr>msg = pl, data_ref = r\<rparr> s1))
                      else
                        (case process_ivt pl ''it_measurement'' s of
                           Inl e \<Rightarrow> Inl (e, s)
                         | Inr (pdata, pl', s1) \<Rightarrow>
                             (case it_accumulate (series s (latest s)) pdata of
                                Inl e \<Rightarrow> Inl (e, s1)
                              | Inr a \<Rightarrow>
                                  (let (r, s2) = alloc a s1
                                   in Inr (push_latest \<lparr>msg = pl', data_ref = r\<rparr>
                                             (fold_in r s2)))))))
          else if topic m = ''measurement/run'' then read_config obj s
          else if topic m = ''plotter/pause'' then Inr (s\<lparr>paused := obj\<rparr>)
          else Inr s)"

section \<open>Current against voltage (\<^verbatim>\<open>iv_plotter.py\<close>)\<close>

text \<open>
  A number of the payload's sweep: a Python integer or a Python float. An integer is
  taken within the range of \<^verbatim>\<open>int64\<close>, which is how numpy stores it (where its default
  integer has 64 bits); for a larger one numpy chooses another element type, which is
  not modelled.
\<close>

datatype pynum = PyInt "64 word" | PyFloat npfloat

fun is_int :: "pynum \<Rightarrow> bool" where
  "is_int (PyInt w) = True"
| "is_int (PyFloat x) = False"

fun to_float :: "pynum \<Rightarrow> npfloat" where
  \<comment> \<open>the conversion of an array element to \<^verbatim>\<open>float64\<close>\<close>
  "to_float (PyInt w) = Fin (real_of_int (sint w))"
| "to_float (PyFloat x) = x"

fun np_times_int :: "pynum \<Rightarrow> int \<Rightarrow> pynum" where
  \<comment> \<open>an array element times a Python integer: in \<^verbatim>\<open>int64\<close> the product wraps around\<close>
  "np_times_int (PyInt w) k = PyInt (w * word_of_int k)"
| "np_times_int (PyFloat x) k = PyFloat (np_mul x (Fin (real_of_int k)))"

definition rectangular :: "'a list list \<Rightarrow> bool" where
  "rectangular xss = (\<forall>r \<in> set xss. length r = length (hd xss))"

definition np_array :: "pynum list list \<Rightarrow> pynum list list" where
  \<comment> \<open>the elements of \<^verbatim>\<open>np.array(rows)\<close>: \<^verbatim>\<open>int64\<close> when every number is an integer,
      and otherwise \<^verbatim>\<open>float64\<close>, with the integers converted\<close>
  "np_array d =
     (if list_all (list_all is_int) d then d else map (map (\<lambda>x. PyFloat (to_float x))) d)"

definition append_col :: "'a list list \<Rightarrow> 'a list \<Rightarrow> 'a list list" where
  \<comment> \<open>\<^verbatim>\<open>np.append(data, c.reshape(len(c), 1), axis=1)\<close> for a column as long as the array\<close>
  "append_col xss c = map2 (\<lambda>r x. r @ [x]) xss c"

text \<open>
  \<^verbatim>\<open>process_iv\<close>. \<^verbatim>\<open>np.array\<close> turns the list of rows into a two-dimensional array
  when the rows have one length; rows of different lengths raise \<^verbatim>\<open>ValueError\<close>
  (numpy 1.24 and later; earlier versions build a one-dimensional array of objects, and
  the index \<^verbatim>\<open>data[:, 1]\<close> raises). An empty list gives a one-dimensional array, and
  \<^verbatim>\<open>data[:, 1]\<close> raises \<^verbatim>\<open>IndexError\<close>, as it does when the rows have fewer than two
  entries. Every exception is raised before the publication.

  The product \<^verbatim>\<open>data[:, 1] * 1000\<close> is taken in the array's element type, so for a sweep
  of integers it is a 64-bit product. The division by the area and the product with the
  voltage are in \<^verbatim>\<open>float64\<close>, and so is the array after the two columns are appended;
  \<^verbatim>\<open>tolist\<close> then gives floats.
\<close>

definition process_iv ::
  "pynum list list payload \<Rightarrow> (pynum list list, npfloat) plotter \<Rightarrow>
     error + (npfloat ndarray \<times> pynum list list payload \<times> (pynum list list, npfloat) plotter)"
  where
  "process_iv pl s =
     (case data pl of
        None \<Rightarrow> Inl KeyError
      | Some d \<Rightarrow>
          if \<not> rectangular d then Inl ValueError
          else
            (case pixel_area pl of
               None \<Rightarrow> Inl KeyError
             | Some area \<Rightarrow>
                 if d = [] then Inl IndexError
                 else if length (hd d) \<le> 1 then Inl IndexError
                 else
                   let a = np_array d;
                       j = map (\<lambda>r. np_div (to_float (np_times_int (r ! 1) 1000)) area) a;
                       p = map2 np_mul (map (\<lambda>r. to_float (r ! 0)) a) j;
                       d' = append_col (append_col (map (map to_float) a) j) p;
                       pl' = pl\<lparr>data := Some (map (map PyFloat) d')\<rparr>
                   in Inr (\<lparr>ncols = length (hd d) + 2, rows = d'\<rparr>, pl',
                           publish ''data/processed/iv_measurement'' pl' s)))"

definition cols_0_4 :: "'a ndarray \<Rightarrow> error + 'a ndarray" where
  \<comment> \<open>\<^verbatim>\<open>np.array(pdata[:, [0, 4]])\<close>: a new array of the columns 0 and 4\<close>
  "cols_0_4 a =
     (if ncols a \<le> 4 then Inl IndexError
      else Inr \<lparr>ncols = 2, rows = map (\<lambda>r. [r ! 0, r ! 4]) (rows a)\<rparr>)"

definition np_zeros :: "nat \<Rightarrow> nat \<Rightarrow> npfloat ndarray" where
  \<comment> \<open>\<^verbatim>\<open>np.zeros((n, c))\<close>\<close>
  "np_zeros n c = \<lparr>ncols = c, rows = replicate n (replicate c (Fin 0))\<rparr>"

text \<open>
  \<^verbatim>\<open>data[:, 2:] = x\<close>, the assignment in place. The target \<^verbatim>\<open>data[:, 2:]\<close> has the
  shape \<open>(len data, ncols data - 2)\<close>, and numpy broadcasts \<open>x\<close> to it: along each axis
  the size of \<open>x\<close> is the target's or 1, and an axis of size 1 is repeated. Otherwise
  \<^verbatim>\<open>ValueError\<close> is raised and nothing is written.
\<close>

definition broadcast :: "nat \<Rightarrow> 'b list \<Rightarrow> 'b list" where
  "broadcast n xs = (if length xs = n then xs else replicate n (hd xs))"

definition assign_from_col_2 :: "'a ndarray \<Rightarrow> 'a ndarray \<Rightarrow> error + 'a ndarray" where
  "assign_from_col_2 a x =
     (let n = length (rows a); w = ncols a - 2
      in if (ncols x = w \<or> ncols x = 1) \<and> (length (rows x) = n \<or> length (rows x) = 1)
         then Inr (a\<lparr>rows := map2 (\<lambda>r v. take 2 r @ broadcast w v)
                                   (rows a) (broadcast n (rows x))\<rparr>)
         else Inl ValueError)"

definition iv_on_message ::
  "(pynum list list, npfloat) plotter \<Rightarrow> pynum list list mqtt_msg \<Rightarrow>
     (error \<times> (pynum list list, npfloat) plotter) + (pynum list list, npfloat) plotter"
  where
  "iv_on_message s m =
     (case body m of
        None \<Rightarrow> Inl (DecodeError, s)
      | Some obj \<Rightarrow>
          if topic m = ''data/raw/iv_measurement'' then
            (case obj of
               PBool _ \<Rightarrow> Inl (TypeError, s)
             | PDict pl \<Rightarrow>
                 (case clear pl of
                    None \<Rightarrow> Inl (KeyError, s)
                  | Some c \<Rightarrow>
                      if c then
                        (let (r, s1) = alloc (np_empty 4) s
                         in Inr (push_latest \<lparr>msg = pl, data_ref = r\<rparr> s1))
                      else
                        (case process_iv pl s of
                           Inl e \<Rightarrow> Inl (e, s)
                         | Inr (pdata, pl', s1) \<Rightarrow>
                             if len (series s (latest s)) = 0 then
                               (case cols_0_4 pdata of
                                  Inl e \<Rightarrow> Inl (e, s1)
                                | Inr data0 \<Rightarrow>
                                    (case np_append_axis1 data0
                                            (np_zeros (len data0) (ncols data0)) of
                                       Inl e \<Rightarrow> Inl (e, s1)
                                     | Inr a \<Rightarrow>
                                         (let (r, s2) = alloc a s1
                                          in Inr (push_latest \<lparr>msg = pl', data_ref = r\<rparr>
                                                    (fold_in r s2)))))
                             else
                               (case cols_0_4 pdata of
                                  Inl e \<Rightarrow> Inl (e, s1)
                                | Inr x \<Rightarrow>
                                    (case assign_from_col_2 (series s (latest s)) x of
                                       Inl e \<Rightarrow> Inl (e, s1)
                                     | Inr a \<Rightarrow>
                                         (let r = data_ref (latest s)
                                          in Inr (push_latest \<lparr>msg = pl', data_ref = r\<rparr>
                                                    (fold_in r
                                                       (s1\<lparr>heap := (heap s1)[r := a]\<rparr>)))))))))
          else if topic m = ''measurement/run'' then read_config obj s
          else if topic m = ''plotter/pause'' then Inr (s\<lparr>paused := obj\<rparr>)
          else Inr s)"

section \<open>Well-formed states\<close>

text \<open>
  In a state the program can be in, the snapshot's reference is an array of the store
  with the kind's column count (3 or 4), and every row has that many entries.
\<close>

definition wf :: "nat \<Rightarrow> ('d, 'a) plotter \<Rightarrow> bool" where
  "wf c s \<longleftrightarrow>
     data_ref (latest s) < length (heap s) \<and>
     ncols (series s (latest s)) = c \<and>
     (\<forall>r \<in> set (rows (series s (latest s))). length r = c)"

text \<open>Folding a sequence of messages, stopping at the first exception.\<close>

fun run ::
  "('s \<Rightarrow> 'm \<Rightarrow> (error \<times> 's) + 's) \<Rightarrow> 's \<Rightarrow> 'm list \<Rightarrow> (error \<times> 's) + 's" where
  "run f s [] = Inr s"
| "run f s (m # ms) = (case f s m of Inl e \<Rightarrow> Inl e | Inr s' \<Rightarrow> run f s' ms)"

section \<open>Example messages and observations\<close>

text \<open>
  A data message as the measurement server sends it: the topic, the \<^verbatim>\<open>clear\<close> flag, the
  \<^verbatim>\<open>data\<close> entry and the pixel's area.
\<close>

definition data_msg :: "string \<Rightarrow> bool \<Rightarrow> 'd \<Rightarrow> real \<Rightarrow> 'd mqtt_msg" where
  "data_msg tp c d A =
     \<lparr>topic = tp,
      body = Some (PDict \<lparr>clear = Some c, data = Some d, pixel_area = Some A,
                          idn = ''px'', config_entry = None\<rparr>)\<rparr>"

definition it_msg :: "real list \<Rightarrow> real \<Rightarrow> real list mqtt_msg" where
  "it_msg d A = data_msg ''data/raw/it_measurement'' False d A"

definition iv_msg :: "real list list \<Rightarrow> real \<Rightarrow> pynum list list mqtt_msg" where
  \<comment> \<open>a sweep of floats\<close>
  "iv_msg d A =
     data_msg ''data/raw/iv_measurement'' False (map (map (\<lambda>x. PyFloat (Fin x))) d) A"

text \<open>
  What the chart reads after a handler has returned or raised: the rows of the latest
  snapshot's series, or the exception.
\<close>

definition shown :: "(error \<times> ('d, 'a) plotter) + ('d, 'a) plotter \<Rightarrow> error + 'a list list" where
  "shown r = (case r of Inl (e, s) \<Rightarrow> Inl e | Inr s \<Rightarrow> Inr (rows (series s (latest s))))"

text \<open>The effects up to then, whether the handler returned or raised.\<close>

definition effects :: "(error \<times> ('d, 'a) plotter) + ('d, 'a) plotter \<Rightarrow> 'd effect list" where
  "effects r = (case r of Inl (e, s) \<Rightarrow> trace s | Inr s \<Rightarrow> trace s)"

text \<open>
  The bias and the derived columns of one row of the array \<open>np_array d\<close>, as
  \<^verbatim>\<open>process_iv\<close> computes them.
\<close>

abbreviation iv_bias :: "pynum list \<Rightarrow> npfloat" where
  "iv_bias r \<equiv> to_float (r ! 0)"

abbreviation iv_j :: "real \<Rightarrow> pynum list \<Rightarrow> npfloat" where
  "iv_j A r \<equiv> np_div (to_float (np_times_int (r ! 1) 1000)) A"

abbreviation iv_p :: "real \<Rightarrow> pynum list \<Rightarrow> npfloat" where
  "iv_p A r \<equiv> np_mul (iv_bias r) (iv_j A r)"

abbreviation iv_row :: "real \<Rightarrow> pynum list \<Rightarrow> npfloat list" where
  "iv_row A r \<equiv> map to_float r @ [iv_j A r, iv_p A r]"

text \<open>
  A sweep of the current-vs-voltage kind as the measurement sends it: a payload that is
  not a clear, with an area and with at least one row, every row having the four fields
  voltage, current, time and status. Its message, and its pairs of bias and current
  density, row by row.
\<close>

definition four_field_sweep :: "pynum list list payload \<Rightarrow> bool" where
  "four_field_sweep pl \<longleftrightarrow>
     clear pl = Some False \<and> pixel_area pl \<noteq> None \<and>
     (case data pl of None \<Rightarrow> False | Some d \<Rightarrow> d \<noteq> [] \<and> list_all (\<lambda>r. length r = 4) d)"


definition iv_pairs :: "pynum list list payload \<Rightarrow> npfloat list list" where
  "iv_pairs pl =
     map (\<lambda>r. [iv_bias r, iv_j (the (pixel_area pl)) r]) (np_array (the (data pl)))"

section \<open>Lemmas on the operations\<close>

lemma map2_same: "map2 h (map f xs) (map g xs) = map (\<lambda>x. h (f x) (g x)) xs"
  by (induction xs) simp_all

lemma map2_replicate: "map2 h (map f xs) (replicate (length xs) c) = map (\<lambda>x. h (f x) c) xs"
  by (induction xs) simp_all

lemma append_col_map: "append_col (map f xs) (map g xs) = map (\<lambda>x. f x @ [g x]) xs"
  unfolding append_col_def by (rule map2_same)

lemma append_col_map_id: "append_col xs (map g xs) = map (\<lambda>x. x @ [g x]) xs"
  using append_col_map [of "\<lambda>x. x" xs g] by simp

lemma upd0_row3: "length r = 3 \<Longrightarrow> r[0 := t] = [t, r ! 1, r ! 2]"
  by (cases r; cases "tl r"; cases "tl (tl r)") auto

lemma wf_init: "wf c (init c)"
  by (simp add: wf_def init_def series_def np_empty_def)

subsection \<open>\<^verbatim>\<open>process_ivt\<close> and the current-vs-time handler\<close>

lemma process_ivt_ok:
  assumes "data pl = Some d" "pixel_area pl = Some A" "2 \<le> length d" "A \<noteq> 0"
  shows "process_ivt pl kind s =
           Inr (d @ [d ! 1 * 1000 / A, d ! 0 * (d ! 1 * 1000 / A)],
                pl\<lparr>data := Some (d @ [d ! 1 * 1000 / A, d ! 0 * (d ! 1 * 1000 / A)])\<rparr>,
                publish (''data/processed/'' @ kind)
                  (pl\<lparr>data := Some (d @ [d ! 1 * 1000 / A, d ! 0 * (d ! 1 * 1000 / A)])\<rparr>) s)"
  using assms by (simp add: process_ivt_def Let_def)

lemma process_ivt_state:
  assumes "process_ivt pl kind s = Inr (pdata, pl', s1)"
  shows "s1 = publish (''data/processed/'' @ kind) pl' s \<and> 4 \<le> length pdata \<and>
         data pl' = Some pdata"
  using assms
  by (auto simp: process_ivt_def Let_def split: option.splits if_splits)

lemma it_accumulate_ok:
  assumes "ncols a = 3" "5 \<le> length pdata"
  shows "it_accumulate a pdata =
           Inr (t_scale \<lparr>ncols = 3, rows = rows a @ [[0, pdata ! 4, pdata ! 2]]\<rparr>)"
  using assms by (simp add: it_accumulate_def np_append_axis0_def Let_def)

lemma it_on_message_data:
  assumes m: "topic m = ''data/raw/it_measurement''" "body m = Some (PDict pl)"
      "clear pl = Some False"
    and p: "process_ivt pl ''it_measurement'' s = Inr (pdata, pl', s1)"
    and a: "ncols (series s (latest s)) = 3" "5 \<le> length pdata"
  shows "it_on_message s m =
           Inr (push_latest \<lparr>msg = pl', data_ref = length (heap s1)\<rparr>
                 (fold_in (length (heap s1))
                   (s1\<lparr>heap := heap s1 @
                       [t_scale \<lparr>ncols = 3,
                          rows = rows (series s (latest s)) @ [[0, pdata ! 4, pdata ! 2]]\<rparr>]\<rparr>)))"
  using m p it_accumulate_ok [OF a] by (simp add: it_on_message_def alloc_def)

lemma t_scale_rows:
  assumes "xs \<noteq> []" "\<forall>r \<in> set xs. length r = 3"
  shows "rows (t_scale \<lparr>ncols = 3, rows = xs\<rparr>) =
           map (\<lambda>r. [r ! 2 - hd xs ! 2, r ! 1, r ! 2]) xs"
  using assms by (simp add: t_scale_def Let_def upd0_row3)

lemma it_data_step:
  assumes w: "wf 3 s"
    and m: "topic m = ''data/raw/it_measurement''" "body m = Some (PDict pl)"
      "clear pl = Some False"
    and d: "data pl = Some d" "3 \<le> length d" "pixel_area pl = Some A" "A \<noteq> 0"
    and pd: "pdata = d @ [d ! 1 * 1000 / A, d ! 0 * (d ! 1 * 1000 / A)]"
    and xs: "xs = rows (series s (latest s)) @ [[0, pdata ! 4, d ! 2]]"
  shows "it_on_message s m =
           Inr (s\<lparr>heap := heap s @
                      [\<lparr>ncols = 3, rows = map (\<lambda>r. [r ! 2 - hd xs ! 2, r ! 1, r ! 2]) xs\<rparr>],
                   latest := \<lparr>msg = pl\<lparr>data := Some pdata\<rparr>, data_ref = length (heap s)\<rparr>,
                   trace := trace s @
                      [Publish ''data/processed/it_measurement'' (pl\<lparr>data := Some pdata\<rparr>),
                       Fold (length (heap s)),
                       CachePush \<lparr>msg = pl\<lparr>data := Some pdata\<rparr>, data_ref = length (heap s)\<rparr>]\<rparr>)"
proof -
  have p: "process_ivt pl ''it_measurement'' s =
      Inr (pdata, pl\<lparr>data := Some pdata\<rparr>,
           publish ''data/processed/it_measurement'' (pl\<lparr>data := Some pdata\<rparr>) s)"
    using process_ivt_ok [of pl d A "''it_measurement''" s] d by (simp add: pd)
  have l: "5 \<le> length pdata" using d by (simp add: pd)
  have t: "pdata ! 2 = d ! 2" using d by (simp add: pd nth_append)
  have c: "ncols (series s (latest s)) = 3" using w by (simp add: wf_def)
  have x3: "\<forall>r \<in> set xs. length r = 3" using w by (auto simp: wf_def xs)
  have xn: "xs \<noteq> []" by (simp add: xs)
  have ts: "t_scale \<lparr>ncols = 3, rows = xs\<rparr> =
              \<lparr>ncols = 3, rows = map (\<lambda>r. [r ! 2 - hd xs ! 2, r ! 1, r ! 2]) xs\<rparr>"
    using t_scale_rows [OF xn x3] by (simp add: t_scale_def Let_def)
  show ?thesis
    using it_on_message_data [OF m p c l] ts
    by (simp add: xs t publish_def push_latest_def fold_in_def)
qed

subsection \<open>\<^verbatim>\<open>process_iv\<close>\<close>

lemma rectangular_same: "(\<forall>r \<in> set d. length r = n) \<Longrightarrow> rectangular d"
  by (cases d) (auto simp: rectangular_def)

lemma np_array_length: "length (np_array d) = length d"
  by (simp add: np_array_def)

lemma np_array_empty: "np_array d = [] \<longleftrightarrow> d = []"
  by (simp add: np_array_def)

lemma np_array_rows:
  assumes "\<forall>r \<in> set d. length r = n"
  shows "\<forall>r \<in> set (np_array d). length r = n"
  using assms by (auto simp: np_array_def)

lemma np_array_floats:
  assumes "\<forall>r \<in> set d. \<forall>x \<in> set r. \<not> is_int x"
  shows "np_array d = d"
proof -
  have "\<And>x. \<not> is_int x \<Longrightarrow> PyFloat (to_float x) = x"
    by (case_tac x) simp_all
  then have "map (map (\<lambda>x. PyFloat (to_float x))) d = d"
    using assms by (simp add: map_idI)
  then show ?thesis by (simp add: np_array_def)
qed

lemma np_array_of_floats:
  "np_array (map (map (\<lambda>x. PyFloat (Fin x))) d) = map (map (\<lambda>x. PyFloat (Fin x))) d"
  by (rule np_array_floats) auto

lemma process_iv_ok:
  assumes "data pl = Some d" "pixel_area pl = Some A" "\<forall>r \<in> set d. length r = n"
    "d \<noteq> []" "2 \<le> n"
  shows "process_iv pl s =
           Inr (\<lparr>ncols = n + 2, rows = map (iv_row A) (np_array d)\<rparr>,
                pl\<lparr>data := Some (map (map PyFloat) (map (iv_row A) (np_array d)))\<rparr>,
                publish ''data/processed/iv_measurement''
                  (pl\<lparr>data := Some (map (map PyFloat) (map (iv_row A) (np_array d)))\<rparr>) s)"
proof -
  have a: "\<And>f j b a. append_col (append_col (map f a) (map j a))
             (map2 np_mul (map b a) (map j a))
           = map (\<lambda>r. f r @ [j r, np_mul (b r) (j r)]) a"
    by (simp add: map2_same append_col_map)
  have h: "length (hd d) = n" using assms(3,4) by (cases d) auto
  show ?thesis
    using assms(1,2,4,5) rectangular_same [OF assms(3)] h
    by (simp add: process_iv_def Let_def a del: map_map)
qed

subsection \<open>The handlers\<close>

lemma run_snoc:
  "run f s (ms @ [m]) = (case run f s ms of Inl e \<Rightarrow> Inl e | Inr s' \<Rightarrow> f s' m)"
  by (induction ms arbitrary: s) (auto split: sum.splits)

lemma map_length3: "length xs = 3 \<Longrightarrow> map f xs = [f (xs ! 0), f (xs ! 1), f (xs ! 2)]"
  by (cases xs; cases "tl xs"; cases "tl (tl xs)") auto

lemma map2_map_right: "map2 f xs (map g ys) = map2 (\<lambda>x y. f x (g y)) xs ys"
  by (simp add: zip_map2 case_prod_unfold o_def)

lemma iv_cols:
  assumes "process_iv pl s = Inr (pdata, pl1, s1)"
  shows "s1 = publish ''data/processed/iv_measurement'' pl1 s \<and> 4 \<le> ncols pdata \<and>
         rows pdata \<noteq> [] \<and> data pl1 = Some (map (map PyFloat) (rows pdata))"
  using assms
  by (auto simp: process_iv_def Let_def append_col_def np_array_empty
        split: option.splits if_splits)

lemma iv_seed:
  assumes m: "topic m = ''data/raw/iv_measurement''" "body m = Some (PDict pl)"
      "clear pl = Some False"
    and p: "process_iv pl s = Inr (pdata, pl1, s1)"
    and a: "len (series s (latest s)) = 0" "5 \<le> ncols pdata"
  shows "iv_on_message s m =
           Inr (push_latest \<lparr>msg = pl1, data_ref = length (heap s1)\<rparr>
                 (fold_in (length (heap s1))
                   (s1\<lparr>heap := heap s1 @
                       [\<lparr>ncols = 4,
                         rows = map (\<lambda>r. [r ! 0, r ! 4, Fin 0, Fin 0]) (rows pdata)\<rparr>]\<rparr>)))"
proof -
  have z: "replicate 2 (Fin 0) = [Fin 0, Fin 0]" by (simp add: numeral_2_eq_2)
  have "map2 (@) (map (\<lambda>r. [r ! 0, r ! 4]) (rows pdata))
          (replicate (length (rows pdata)) [Fin 0, Fin 0]) =
        map (\<lambda>r. [r ! 0, r ! 4, Fin 0, Fin 0]) (rows pdata)"
    by (simp add: map2_replicate)
  then show ?thesis
    using m p a
    by (simp add: iv_on_message_def cols_0_4_def np_append_axis1_def np_zeros_def len_def
          alloc_def z)
qed

lemma iv_overwrite:
  assumes m: "topic m = ''data/raw/iv_measurement''" "body m = Some (PDict pl)"
      "clear pl = Some False"
    and p: "process_iv pl s = Inr (pdata, pl1, s1)"
    and a: "len (series s (latest s)) \<noteq> 0" "5 \<le> ncols pdata"
      "ncols (series s (latest s)) = 4"
  shows "iv_on_message s m =
          (if length (rows pdata) = len (series s (latest s)) \<or> length (rows pdata) = 1
           then Inr (push_latest \<lparr>msg = pl1, data_ref = data_ref (latest s)\<rparr>
                 (fold_in (data_ref (latest s))
                   (s1\<lparr>heap := (heap s1)[data_ref (latest s) :=
                       (series s (latest s))
                         \<lparr>rows := map2 (\<lambda>r v. take 2 r @ v) (rows (series s (latest s)))
                                    (broadcast (len (series s (latest s)))
                                       (map (\<lambda>r. [r ! 0, r ! 4]) (rows pdata)))\<rparr>]\<rparr>)))
           else Inl (ValueError, s1))"
proof -
  have e: "rows pdata \<noteq> []" using iv_cols [OF p] by simp
  have l: "\<And>v. v \<in> set (broadcast (len (series s (latest s)))
                       (map (\<lambda>r. [r ! 0, r ! 4]) (rows pdata))) \<Longrightarrow> broadcast 2 v = v"
    using e by (auto simp: broadcast_def hd_map split: if_splits)
  have b: "map2 (\<lambda>r v. take 2 r @ broadcast 2 v) (rows (series s (latest s)))
                  (broadcast (len (series s (latest s)))
                     (map (\<lambda>r. [r ! 0, r ! 4]) (rows pdata))) =
               map2 (\<lambda>r v. take 2 r @ v) (rows (series s (latest s)))
                  (broadcast (len (series s (latest s)))
                     (map (\<lambda>r. [r ! 0, r ! 4]) (rows pdata)))"
    by (rule map_cong) (auto dest!: set_zip_rightD l)
  have r: "iv_on_message s m =
          (if length (rows pdata) = len (series s (latest s)) \<or> length (rows pdata) = 1
           then Inr (push_latest \<lparr>msg = pl1, data_ref = data_ref (latest s)\<rparr>
                 (fold_in (data_ref (latest s))
                   (s1\<lparr>heap := (heap s1)[data_ref (latest s) :=
                       (series s (latest s))
                         \<lparr>rows := map2 (\<lambda>r v. take 2 r @ broadcast 2 v)
                                    (rows (series s (latest s)))
                                    (broadcast (len (series s (latest s)))
                                       (map (\<lambda>r. [r ! 0, r ! 4]) (rows pdata)))\<rparr>]\<rparr>)))
           else Inl (ValueError, s1))"
    using m p a
    by (simp add: iv_on_message_def cols_0_4_def assign_from_col_2_def len_def Let_def)
  show ?thesis by (simp only: r b)
qed

lemma iv_cols_j:
  assumes "\<forall>r \<in> set a. length r = 4"
  shows "map (\<lambda>r. [r ! 0, r ! 4]) (map (iv_row A) a) = map (\<lambda>r. [iv_bias r, iv_j A r]) a"
  using assms by (auto simp: nth_append)

lemma iv_cols_j0:
  assumes "\<forall>r \<in> set a. length r = 4"
  shows "map (\<lambda>r. [r ! 0, r ! 4, Fin 0, Fin 0]) (map (iv_row A) a) =
         map (\<lambda>r. [iv_bias r, iv_j A r, Fin 0, Fin 0]) a"
  using assms by (auto simp: nth_append)

lemma overwrite_rows:
  assumes "\<forall>r \<in> set xs. length r = 4" "\<forall>v \<in> set vs. length v = 2"
  shows "map2 (\<lambda>r v. take 2 r @ v) xs vs = map2 (\<lambda>r v. [r ! 0, r ! 1, v ! 0, v ! 1]) xs vs"
proof (rule map_cong [OF refl])
  fix x assume "x \<in> set (zip xs vs)"
  moreover obtain a b where "x = (a, b)" by (cases x)
  ultimately have "length (fst x) = 4" "length (snd x) = 2"
    using assms by (auto dest: set_zip_leftD set_zip_rightD)
  then have "take 2 (fst x) @ snd x = [fst x ! 0, fst x ! 1, snd x ! 0, snd x ! 1]"
    by (cases "fst x"; cases "tl (fst x)"; cases "snd x"; cases "tl (snd x)") auto
  then show "(case x of (r, v) \<Rightarrow> take 2 r @ v) =
             (case x of (r, v) \<Rightarrow> [r ! 0, r ! 1, v ! 0, v ! 1])"
    by (simp add: case_prod_unfold)
qed

lemma iv_data_step:
  assumes w: "wf 4 s"
    and m: "topic m = ''data/raw/iv_measurement''" "body m = Some (PDict pl)"
      "clear pl = Some False"
    and d: "data pl = Some d" "d \<noteq> []" "\<forall>r \<in> set d. length r = 4" "pixel_area pl = Some A"
    and a: "a = np_array d"
    and pl1: "pl1 = pl\<lparr>data := Some (map (map PyFloat) (map (iv_row A) a))\<rparr>"
    and old: "old = series s (latest s)"
  shows "iv_on_message s m =
          (if len old = 0 then
             Inr (s\<lparr>heap := heap s @
                        [\<lparr>ncols = 4,
                          rows = map (\<lambda>r. [iv_bias r, iv_j A r, Fin 0, Fin 0]) a\<rparr>],
                     latest := \<lparr>msg = pl1, data_ref = length (heap s)\<rparr>,
                     trace := trace s @
                        [Publish ''data/processed/iv_measurement'' pl1,
                         Fold (length (heap s)),
                         CachePush \<lparr>msg = pl1, data_ref = length (heap s)\<rparr>]\<rparr>)
           else if length d = len old \<or> length d = 1 then
             Inr (s\<lparr>heap := (heap s)[data_ref (latest s) :=
                        \<lparr>ncols = 4,
                         rows = map2 (\<lambda>r v. [r ! 0, r ! 1, v ! 0, v ! 1]) (rows old)
                                  (broadcast (len old)
                                     (map (\<lambda>r. [iv_bias r, iv_j A r]) a))\<rparr>],
                     latest := \<lparr>msg = pl1, data_ref = data_ref (latest s)\<rparr>,
                     trace := trace s @
                        [Publish ''data/processed/iv_measurement'' pl1,
                         Fold (data_ref (latest s)),
                         CachePush \<lparr>msg = pl1, data_ref = data_ref (latest s)\<rparr>]\<rparr>)
           else Inl (ValueError,
                     s\<lparr>trace := trace s @ [Publish ''data/processed/iv_measurement'' pl1]\<rparr>))"
proof -
  define pdata where "pdata = \<lparr>ncols = 4 + 2, rows = map (iv_row A) a\<rparr>"
  define s1 where "s1 = publish ''data/processed/iv_measurement'' pl1 s"
  have a4: "\<forall>r \<in> set a. length r = 4" unfolding a by (rule np_array_rows [OF d(3)])
  have an: "a \<noteq> []" using d(2) by (simp add: a np_array_empty)
  have al: "length a = length d" by (simp add: a np_array_length)
  have p: "process_iv pl s = Inr (pdata, pl1, s1)"
    using process_iv_ok [of pl d A 4 s] d by (simp add: pdata_def pl1 s1_def a)
  have n: "5 \<le> ncols pdata" by (simp add: pdata_def)
  have c: "ncols (series s (latest s)) = 4" using w by (simp add: wf_def)
  show ?thesis
  proof (cases "len old = 0")
    case True
    then show ?thesis
      using iv_seed [OF m p _ n] iv_cols_j0 [OF a4, of A]
      by (simp add: old pdata_def s1_def publish_def push_latest_def fold_in_def)
  next
    case False
    have v: "\<forall>v \<in> set (broadcast (len old) (map (\<lambda>r. [iv_bias r, iv_j A r]) a)).
               length v = 2"
      using an by (auto simp: broadcast_def hd_map)
    have x: "\<forall>r \<in> set (rows old). length r = 4" using w by (simp add: wf_def old)
    have e: "old\<lparr>rows := map2 (\<lambda>r v. [r ! 0, r ! 1, v ! 0, v ! 1]) (rows old)
                          (broadcast (len old) (map (\<lambda>r. [iv_bias r, iv_j A r]) a))\<rparr> =
             \<lparr>ncols = 4, rows = map2 (\<lambda>r v. [r ! 0, r ! 1, v ! 0, v ! 1]) (rows old)
                          (broadcast (len old) (map (\<lambda>r. [iv_bias r, iv_j A r]) a))\<rparr>"
      using c old by simp
    have q: "map (\<lambda>r. [r ! 0, r ! 4]) (rows pdata) = map (\<lambda>r. [iv_bias r, iv_j A r]) a"
      using iv_cols_j [OF a4, of A] by (simp add: pdata_def del: map_map)
    have lp: "length (rows pdata) = length d" by (simp add: pdata_def al)
    have o: "series s (latest s) = old" by (simp add: old)
    have r: "iv_on_message s m =
          (if length (rows pdata) = len (series s (latest s)) \<or> length (rows pdata) = 1
           then Inr (push_latest \<lparr>msg = pl1, data_ref = data_ref (latest s)\<rparr>
                 (fold_in (data_ref (latest s))
                   (s1\<lparr>heap := (heap s1)[data_ref (latest s) :=
                       (series s (latest s))
                         \<lparr>rows := map2 (\<lambda>r v. take 2 r @ v) (rows (series s (latest s)))
                                    (broadcast (len (series s (latest s)))
                                       (map (\<lambda>r. [r ! 0, r ! 4]) (rows pdata)))\<rparr>]\<rparr>)))
           else Inl (ValueError, s1))"
      using False by (intro iv_overwrite [OF m p _ n c]) (simp add: old)
    show ?thesis
      using False unfolding r q lp o overwrite_rows [OF x v] e
      by (simp add: s1_def publish_def push_latest_def fold_in_def)
  qed
qed

lemma broadcast_single: "length xs = 1 \<Longrightarrow> broadcast n xs = replicate n (hd xs)"
  by (cases xs) (auto simp: broadcast_def)

lemma map2_replicate_right: "map2 h xs (replicate (length xs) c) = map (\<lambda>x. h x c) xs"
  by (induction xs) simp_all

lemma it_failure_frame:
  assumes "it_on_message s m = Inl (e, s')"
  shows "latest s' = latest s \<and> heap s' = heap s \<and> paused s' = paused s \<and>
         config s' = config s"
proof -
  have p: "\<And>pl pdata pl' s1. process_ivt pl ''it_measurement'' s = Inr (pdata, pl', s1) \<Longrightarrow>
             latest s1 = latest s \<and> heap s1 = heap s \<and> paused s1 = paused s \<and>
             config s1 = config s"
    by (auto dest!: process_ivt_state simp: publish_def)
  show ?thesis
    using assms p
    by (auto simp: it_on_message_def read_config_def alloc_def Let_def
          split: option.splits pyobj.splits sum.splits if_splits prod.splits)
qed

lemma iv_failure_frame:
  assumes "iv_on_message s m = Inl (e, s')"
  shows "latest s' = latest s \<and> heap s' = heap s \<and> paused s' = paused s \<and>
         config s' = config s"
proof -
  have p: "\<And>pl pdata pl' s1. process_iv pl s = Inr (pdata, pl', s1) \<Longrightarrow>
             latest s1 = latest s \<and> heap s1 = heap s \<and> paused s1 = paused s \<and>
             config s1 = config s"
    by (auto dest!: iv_cols simp: publish_def)
  show ?thesis
    using assms p
    by (auto simp: iv_on_message_def read_config_def alloc_def Let_def
          split: option.splits pyobj.splits sum.splits if_splits prod.splits)
qed

lemma iv_store_preserved:
  assumes "iv_on_message s m = Inr s'" "len (series s (latest s)) = 0"
  shows "take (length (heap s)) (heap s') = heap s"
proof -
  have p: "\<And>pl pdata pl' s1. process_iv pl s = Inr (pdata, pl', s1) \<Longrightarrow> heap s1 = heap s"
    by (auto dest!: iv_cols simp: publish_def)
  show ?thesis
    using assms p
    by (auto simp: iv_on_message_def read_config_def alloc_def push_latest_def fold_in_def
          Let_def
          split: option.splits pyobj.splits sum.splits if_splits prod.splits)
qed

lemma it_store_preserved:
  assumes "it_on_message s m = Inr s'"
  shows "take (length (heap s)) (heap s') = heap s"
proof -
  have p: "\<And>pl pdata pl' s1. process_ivt pl ''it_measurement'' s = Inr (pdata, pl', s1) \<Longrightarrow>
             heap s1 = heap s"
    by (auto dest!: process_ivt_state simp: publish_def)
  show ?thesis
    using assms p
    by (auto simp: it_on_message_def read_config_def alloc_def push_latest_def fold_in_def
          Let_def
          split: option.splits pyobj.splits sum.splits if_splits prod.splits)
qed

lemma process_ivt_paused:
  "process_ivt pl kind (s\<lparr>paused := f\<rparr>) =
     map_sum id (\<lambda>(d, q, u). (d, q, u\<lparr>paused := f\<rparr>)) (process_ivt pl kind s)"
  by (simp add: process_ivt_def publish_def Let_def split: option.splits)

lemma process_iv_paused:
  "process_iv pl (s\<lparr>paused := f\<rparr>) =
     map_sum id (\<lambda>(d, q, u). (d, q, u\<lparr>paused := f\<rparr>)) (process_iv pl s)"
  by (simp add: process_iv_def publish_def Let_def split: option.splits)

lemma it_on_message_paused:
  assumes "topic x \<noteq> ''plotter/pause''"
  shows "it_on_message (s\<lparr>paused := f\<rparr>) x =
           map_sum (\<lambda>(e, u). (e, u\<lparr>paused := f\<rparr>)) (\<lambda>u. u\<lparr>paused := f\<rparr>) (it_on_message s x)"
  using assms
  by (auto simp: it_on_message_def process_ivt_paused read_config_def alloc_def
        push_latest_def fold_in_def series_def Let_def
        split: option.splits pyobj.splits sum.splits prod.splits)

lemma iv_on_message_paused:
  assumes "topic x \<noteq> ''plotter/pause''"
  shows "iv_on_message (s\<lparr>paused := f\<rparr>) x =
           map_sum (\<lambda>(e, u). (e, u\<lparr>paused := f\<rparr>)) (\<lambda>u. u\<lparr>paused := f\<rparr>) (iv_on_message s x)"
  using assms
  by (auto simp: iv_on_message_def process_iv_paused read_config_def alloc_def
        push_latest_def fold_in_def series_def Let_def
        split: option.splits pyobj.splits sum.splits prod.splits)

lemma shown_paused:
  "shown (map_sum (\<lambda>(e, u). (e, u\<lparr>paused := f\<rparr>)) (\<lambda>u. u\<lparr>paused := f\<rparr>) r) = shown r"
  by (cases r) (auto simp: shown_def series_def)

subsection \<open>Folding sweeps of four fields\<close>

lemma four_field_sweepD:
  assumes "four_field_sweep pl"
  obtains d A where "clear pl = Some False" "data pl = Some d" "d \<noteq> []"
    "\<forall>r \<in> set d. length r = 4" "pixel_area pl = Some A"
    "iv_pairs pl = map (\<lambda>r. [iv_bias r, iv_j A r]) (np_array d)"
  using assms
  by (auto simp: four_field_sweep_def iv_pairs_def list_all_iff split: option.splits)

lemma length_iv_pairs: "length (iv_pairs pl) = length (the (data pl))"
  by (simp add: iv_pairs_def np_array_length)







section \<open>The claims\<close>

subsection \<open>Derived quantities\<close>

text \<open>
  What the two processors append, in general. The current-vs-time processor appends
  \<open>j = i * 1000 / A\<close> and \<open>p = v * j\<close> to the record, for every area that is not zero.
\<close>

lemma process_ivt_derived:
  assumes "A \<noteq> 0" "data pl = Some (v # i # rest)" "pixel_area pl = Some A"
  shows "process_ivt pl kind s =
           Inr (v # i # rest @ [i * 1000 / A, v * (i * 1000 / A)],
                pl\<lparr>data := Some (v # i # rest @ [i * 1000 / A, v * (i * 1000 / A)])\<rparr>,
                publish (''data/processed/'' @ kind)
                  (pl\<lparr>data := Some (v # i # rest @ [i * 1000 / A, v * (i * 1000 / A)])\<rparr>) s)"
  using process_ivt_ok [of pl "v # i # rest" A kind s] assms by simp

text \<open>
  The current-vs-voltage processor appends to every row of the array what \<open>iv_row\<close>
  says (\<open>process_iv_ok\<close>). On a row of floats that is \<open>j = i * 1000 / A\<close> and
  \<open>p = v * j\<close>. On a row of an array of integers it is so as long as \<open>i * 1000\<close> is
  within 64 bits.
\<close>

lemma iv_row_floats:
  assumes "A \<noteq> 0"
  shows "iv_row A (PyFloat (Fin v) # PyFloat (Fin i) # rest) =
           Fin v # Fin i # map to_float rest @ [Fin (i * 1000 / A), Fin (v * (i * 1000 / A))]"
  using assms by simp

lemma int64_product_in_range:
  assumes "- (2 ^ 63) \<le> sint w * k" "sint w * k < 2 ^ 63"
  shows "sint ((w :: 64 word) * word_of_int k) = sint w * k"
proof -
  have "w * word_of_int k = word_of_int (sint w * k)" by simp
  then have "sint (w * word_of_int k) = signed_take_bit 63 (sint w * k)"
    by (simp only: sint_sbintrunc') simp
  then show ?thesis using assms by (simp add: signed_take_bit_int_eq_self)
qed

lemma iv_row_ints_in_range:
  assumes "A \<noteq> 0" "- (2 ^ 63) \<le> sint i * 1000" "sint i * 1000 < 2 ^ 63"
  shows "iv_row A (PyInt v # PyInt i # rest) =
           Fin (real_of_int (sint v)) # Fin (real_of_int (sint i)) # map to_float rest @
             [Fin (real_of_int (sint i) * 1000 / A),
              Fin (real_of_int (sint v) * (real_of_int (sint i) * 1000 / A))]"
  using assms int64_product_in_range [of i 1000] by simp

lemma process_iv_floats:
  assumes "A \<noteq> 0" "xs \<noteq> []" "\<forall>(v, i, rest) \<in> set xs. length rest = n"
    and "data q = Some (map (\<lambda>(v, i, rest). PyFloat (Fin v) # PyFloat (Fin i) # map PyFloat rest) xs)"
    and "pixel_area q = Some A"
  shows "map_sum id (\<lambda>(a, q, u). a) (process_iv q t) =
           Inr \<lparr>ncols = n + 4,
                rows = map (\<lambda>(v, i, rest).
                         Fin v # Fin i # rest @ [Fin (i * 1000 / A), Fin (v * (i * 1000 / A))])
                       xs\<rparr>"
proof -
  let ?f = "\<lambda>(v, i, rest). PyFloat (Fin v) # PyFloat (Fin i) # map PyFloat rest"
  let ?g = "\<lambda>(v, i, rest). Fin v # Fin i # rest @ [Fin (i * 1000 / A), Fin (v * (i * 1000 / A))]"
  have l: "\<forall>r \<in> set (map ?f xs). length r = n + 2" using assms(3) by auto
  have a: "np_array (map ?f xs) = map ?f xs" by (rule np_array_floats) auto
  have e: "map (iv_row A) (map ?f xs) = map ?g xs"
    using assms(1) by (simp add: split_def o_def)
  have r: "process_iv q t =
      Inr (\<lparr>ncols = n + 2 + 2, rows = map (iv_row A) (np_array (map ?f xs))\<rparr>,
           q\<lparr>data := Some (map (map PyFloat) (map (iv_row A) (np_array (map ?f xs))))\<rparr>,
           publish ''data/processed/iv_measurement''
             (q\<lparr>data := Some (map (map PyFloat) (map (iv_row A) (np_array (map ?f xs))))\<rparr>) t)"
    by (rule process_iv_ok) (use assms l in simp_all)
  have n: "n + 2 + 2 = n + 4" by simp
  show ?thesis unfolding r a e n by simp
qed

text \<open>
  The example of the specification: \<open>I = 0.005\<close>, \<open>V = 0.6\<close>, \<open>A = 0.1\<close> gives \<open>j = 50\<close>
  and \<open>p = 30\<close>, in both kinds.
\<close>

lemma derived_quantities_example:
  "map_sum id fst
     (process_ivt \<lparr>clear = Some False, data = Some [0.6, 0.005, 12, 0], pixel_area = Some 0.1,
                   idn = ''px'', config_entry = None\<rparr> ''it_measurement'' (init 3)) =
     Inr [0.6, 0.005, 12, 0, 50, 30] \<and>
   map_sum id (\<lambda>(a, q, u). rows a)
     (process_iv \<lparr>clear = Some False,
                  data = Some [[PyFloat (Fin 0.6), PyFloat (Fin 0.005), PyFloat (Fin 12),
                                PyFloat (Fin 0)]],
                  pixel_area = Some 0.1, idn = ''px'', config_entry = None\<rparr> (init 4)) =
     Inr [[Fin 0.6, Fin 0.005, Fin 12, Fin 0, Fin 50, Fin 30]]"
  by (simp add: process_ivt_def process_iv_def rectangular_def np_array_def append_col_def
        Let_def)

text \<open>
  C1. The claim holds for the current-vs-time kind and for a sweep that numpy stores as
  an array of floats (the lemmas above), and fails for a sweep of integers only with a
  large current. \<^verbatim>\<open>np.array\<close> then builds an array of 64-bit integers, and
  \<^verbatim>\<open>data[:, 1] * 1000\<close> is a 64-bit product that wraps around without an exception. For the sweep \<^verbatim>\<open>[[1, 10**16, 0, 0]]\<close> and the area 1 the
  product \<open>10\<^sup>1\<^sup>9\<close> becomes \<open>10\<^sup>1\<^sup>9 - 2\<^sup>6\<^sup>4\<close>, and that is what is appended as \<open>j\<close> and \<open>p\<close>
  and published. The current-vs-time processor, which carries the same comment
  (calculate current density in mA/cm2), computes with Python's unbounded integers and
  appends \<open>10\<^sup>1\<^sup>9\<close> for the same record.
\<close>

theorem integer_sweep_wraps_around:
  "map_sum id (\<lambda>(a, q, u). rows a)
     (process_iv \<lparr>clear = Some False,
                  data = Some [[PyInt 1, PyInt 10000000000000000, PyInt 0, PyInt 0]],
                  pixel_area = Some 1, idn = ''px'', config_entry = None\<rparr> (init 4)) =
     Inr [[Fin 1, Fin 10000000000000000, Fin 0, Fin 0,
           Fin (- 8446744073709551616), Fin (- 8446744073709551616)]] \<and>
   map_sum id fst
     (process_ivt \<lparr>clear = Some False, data = Some [1, 10000000000000000, 0, 0],
                   pixel_area = Some 1, idn = ''px'', config_entry = None\<rparr>
        ''it_measurement'' (init 3)) =
     Inr [1, 10000000000000000, 0, 0, 10000000000000000000, 10000000000000000000]"
  by (simp add: process_iv_def process_ivt_def rectangular_def np_array_def append_col_def
        Let_def)

subsection \<open>Time offsets\<close>

text \<open>
  C2. Current against time: when a data message that is not a clear is folded in, the
  series gets one more row, whose raw time (column 2) is the message's raw time
  \<^verbatim>\<open>data[2]\<close>, and then in every row of the series, old or new, the time offset
  (column 0) is the row's raw time minus the raw time of row 0. Whatever the first
  column held before is overwritten.
\<close>

theorem time_offset_normalised:
  assumes "wf 3 s"
    and "topic m = ''data/raw/it_measurement''" and "body m = Some (PDict pl)"
    and "clear pl = Some False"
    and "data pl = Some d" and "3 \<le> length d" and "pixel_area pl = Some A" and "A \<noteq> 0"
  shows "\<exists>s'. it_on_message s m = Inr s' \<and> wf 3 s' \<and>
           map (\<lambda>r. r ! 2) (rows (series s' (latest s'))) =
             map (\<lambda>r. r ! 2) (rows (series s (latest s))) @ [d ! 2] \<and>
           (\<forall>k < len (series s' (latest s')).
              rows (series s' (latest s')) ! k ! 0 =
                rows (series s' (latest s')) ! k ! 2 - rows (series s' (latest s')) ! 0 ! 2)"
proof -
  define pdata where "pdata = d @ [d ! 1 * 1000 / A, d ! 0 * (d ! 1 * 1000 / A)]"
  define xs where "xs = rows (series s (latest s)) @ [[0, pdata ! 4, d ! 2]]"
  define a where "a = \<lparr>ncols = 3, rows = map (\<lambda>r. [r ! 2 - hd xs ! 2, r ! 1, r ! 2]) xs\<rparr>"
  define s' where "s' = s\<lparr>heap := heap s @ [a],
       latest := \<lparr>msg = pl\<lparr>data := Some pdata\<rparr>, data_ref = length (heap s)\<rparr>,
       trace := trace s @
          [Publish ''data/processed/it_measurement'' (pl\<lparr>data := Some pdata\<rparr>),
           Fold (length (heap s)),
           CachePush \<lparr>msg = pl\<lparr>data := Some pdata\<rparr>, data_ref = length (heap s)\<rparr>]\<rparr>"
  have r: "it_on_message s m = Inr s'"
    using it_data_step [OF assms pdata_def xs_def] by (simp add: s'_def a_def)
  have ser: "series s' (latest s') = a" by (simp add: s'_def series_def)
  have xn: "xs \<noteq> []" by (simp add: xs_def)
  have w: "wf 3 s'" unfolding wf_def ser by (auto simp: s'_def a_def)
  have c2: "map (\<lambda>r. r ! 2) (rows (series s' (latest s'))) =
             map (\<lambda>r. r ! 2) (rows (series s (latest s))) @ [d ! 2]"
    unfolding ser by (simp add: a_def xs_def o_def)
  have c0: "\<forall>k < len (series s' (latest s')).
              rows (series s' (latest s')) ! k ! 0 =
                rows (series s' (latest s')) ! k ! 2 - rows (series s' (latest s')) ! 0 ! 2"
    unfolding len_def ser using xn by (simp add: a_def hd_conv_nth)
  from r w c2 c0 show ?thesis by blast
qed

text \<open>
  The example of the specification: the raw times 100.0, 100.5 and 101.2, folded in one
  message at a time, leave the offsets 0.0, 0.5 and 1.2.
\<close>

theorem time_offset_example:
  "map_sum id (map (\<lambda>r. r ! 0)) (shown (run it_on_message (init 3)
     [it_msg [0.6, 0.005, 100, 0] 0.1, it_msg [0.6, 0.005, 100.5, 0] 0.1,
      it_msg [0.6, 0.005, 101.2, 0] 0.1])) =
   Inr [0, 0.5, 1.2]"
proof -
  let ?m3 = "it_msg [0.6, 0.005, 101.2, 0] 0.1"
  let ?pl = "\<lparr>clear = Some False, data = Some [0.6, 0.005, 101.2, 0], pixel_area = Some 0.1,
              idn = ''px'', config_entry = None\<rparr> :: real list payload"
  obtain s where s: "run it_on_message (init 3)
       [it_msg [0.6, 0.005, 100, 0] 0.1, it_msg [0.6, 0.005, 100.5, 0] 0.1] = Inr s"
    and w: "wf 3 s" and rs: "rows (series s (latest s)) = [[0, 50, 100], [0.5, 50, 100.5]]"
    by (simp add: it_on_message_def it_msg_def data_msg_def init_def process_ivt_def
          it_accumulate_def np_append_axis0_def t_scale_def alloc_def push_latest_def
          fold_in_def publish_def series_def np_empty_def wf_def Let_def)
  obtain s' where s': "it_on_message s ?m3 = Inr s'"
    and c2: "map (\<lambda>r. r ! 2) (rows (series s' (latest s'))) =
             map (\<lambda>r. r ! 2) (rows (series s (latest s))) @ [[0.6, 0.005, 101.2, 0] ! 2]"
    and c0: "\<forall>k < len (series s' (latest s')).
              rows (series s' (latest s')) ! k ! 0 =
                rows (series s' (latest s')) ! k ! 2 - rows (series s' (latest s')) ! 0 ! 2"
    using time_offset_normalised [of s ?m3 ?pl "[0.6, 0.005, 101.2, 0]" "0.1", OF w]
    by (auto simp: it_msg_def data_msg_def)
  let ?R = "rows (series s' (latest s'))"
  have c2': "map (\<lambda>r. r ! 2) ?R = [100, 100.5, 101.2]" using c2 rs by simp
  have "length (map (\<lambda>r. r ! 2) ?R) = 3" unfolding c2' by simp
  then have l: "length ?R = 3" by simp
  have t: "?R ! 0 ! 2 = 100" "?R ! 1 ! 2 = 100.5" "?R ! 2 ! 2 = 101.2"
    using c2' l by (simp_all add: map_length3)
  have o: "?R ! 0 ! 0 = 0" "?R ! 1 ! 0 = 0.5" "?R ! 2 ! 0 = 1.2"
    using c0 t l by (simp_all add: len_def)
  have "run it_on_message (init 3)
     [it_msg [0.6, 0.005, 100, 0] 0.1, it_msg [0.6, 0.005, 100.5, 0] 0.1, ?m3] = Inr s'"
    using run_snoc [of it_on_message "init 3"
        "[it_msg [0.6, 0.005, 100, 0] 0.1, it_msg [0.6, 0.005, 100.5, 0] 0.1]" ?m3] s s'
    by simp
  then show ?thesis using o l by (simp add: shown_def map_length3)
qed

subsection \<open>The two scans\<close>




subsection \<open>The published snapshot and the store\<close>

text \<open>
  C4. The snapshot a reader holds is not left alone by the current-vs-voltage handler.
  After a first sweep the published snapshot refers to an array with zeros in the
  columns 2 and 3. The second sweep writes its bias and \<open>j\<close> into that same array
  (\<^verbatim>\<open>data[:, 2:] = ...\<close>), and the snapshot it publishes refers to the same array: the
  snapshot published first, with the first message, now shows the second sweep's values.
  The current-vs-time handler, the seeding of an empty series and the clear all build a
  new array and leave the old ones as they were (\<open>it_store_preserved\<close>,
  \<open>iv_store_preserved\<close>).
\<close>

theorem prior_snapshot_overwritten:
  "(case iv_on_message (init 4) (iv_msg [[0.6, 0.005, 12, 0]] 0.1) of
      Inl _ \<Rightarrow> False
    | Inr s1 \<Rightarrow>
        (case iv_on_message s1 (iv_msg [[0.7, 0.004, 13, 0]] 0.1) of
           Inl _ \<Rightarrow> False
         | Inr s2 \<Rightarrow>
             rows (series s1 (latest s1)) = [[Fin 0.6, Fin 50, Fin 0, Fin 0]] \<and>
             rows (series s2 (latest s1)) = [[Fin 0.6, Fin 50, Fin 0.7, Fin 40]] \<and>
             data_ref (latest s2) = data_ref (latest s1) \<and>
             msg (latest s2) \<noteq> msg (latest s1)))"
  by (simp add: iv_on_message_def iv_msg_def data_msg_def init_def process_iv_def
        rectangular_def np_array_def append_col_def cols_0_4_def np_append_axis1_def np_zeros_def
        assign_from_col_2_def broadcast_def len_def alloc_def push_latest_def fold_in_def publish_def
        series_def np_empty_def Let_def numeral_2_eq_2)

subsection \<open>Failures of the computation\<close>

lemma it_late_failure:
  assumes "topic m = ''data/raw/it_measurement''" "body m = Some (PDict pl)"
    "clear pl = Some False" "data pl = Some [v, i]" "pixel_area pl = Some A" "A \<noteq> 0"
  shows "it_on_message s m =
           Inl (IndexError,
                publish ''data/processed/it_measurement''
                  (pl\<lparr>data := Some [v, i, i * 1000 / A, v * (i * 1000 / A)]\<rparr>) s)"
  using assms by (simp add: it_on_message_def process_ivt_def it_accumulate_def Let_def)

lemma iv_late_failure:
  assumes "topic m = ''data/raw/iv_measurement''" "body m = Some (PDict pl)"
    "clear pl = Some False" "data pl = Some d" "d \<noteq> []" "\<forall>r \<in> set d. length r = 2"
    "pixel_area pl = Some A"
  shows "iv_on_message s m =
           Inl (IndexError,
                publish ''data/processed/iv_measurement''
                  (pl\<lparr>data := Some (map (map PyFloat) (map (iv_row A) (np_array d)))\<rparr>) s)"
  using assms(1-3) process_iv_ok [OF assms(4,7,6,5), of s]
  by (simp add: iv_on_message_def cols_0_4_def)

lemma it_accepts:
  assumes "wf 3 s" "topic m = ''data/raw/it_measurement''" "body m = Some (PDict pl)"
    "clear pl = Some False" "data pl = Some d" "3 \<le> length d" "pixel_area pl = Some A"
    "A \<noteq> 0"
  shows "\<exists>s'. it_on_message s m = Inr s' \<and>
           msg (latest s') =
             pl\<lparr>data := Some (d @ [d ! 1 * 1000 / A, d ! 0 * (d ! 1 * 1000 / A)])\<rparr>"
  using it_data_step [OF assms refl refl] by simp

lemma iv_accepts:
  assumes w: "wf 4 s" and m: "topic m = ''data/raw/iv_measurement''"
      "body m = Some (PDict pl)"
    and f: "four_field_sweep pl"
    and n: "len (series s (latest s)) = 0 \<or>
            length (iv_pairs pl) = len (series s (latest s)) \<or> length (iv_pairs pl) = 1"
  shows "\<exists>s'. iv_on_message s m = Inr s' \<and>
           msg (latest s') =
             pl\<lparr>data := Some (map (map PyFloat)
                    (map (iv_row (the (pixel_area pl))) (np_array (the (data pl)))))\<rparr>"
proof -
  from f obtain d A where d: "clear pl = Some False" "data pl = Some d" "d \<noteq> []"
    "\<forall>r \<in> set d. length r = 4" "pixel_area pl = Some A"
    by (rule four_field_sweepD)
  have l: "length (iv_pairs pl) = length d" using d(2) by (simp add: length_iv_pairs)
  show ?thesis
    using iv_data_step [OF w m d refl refl refl] n d(2,5) unfolding l by auto
qed

lemma it_failure_trace:
  assumes "it_on_message s m = Inl (e, s')"
  shows "trace s' = trace s \<or>
         (\<exists>q. trace s' = trace s @ [Publish ''data/processed/it_measurement'' q])"
proof -
  have p: "\<And>pl pdata pl' s1. process_ivt pl ''it_measurement'' s = Inr (pdata, pl', s1) \<Longrightarrow>
             trace s1 = trace s @ [Publish ''data/processed/it_measurement'' pl']"
    by (auto dest!: process_ivt_state simp: publish_def)
  show ?thesis
    using assms p
    by (auto simp: it_on_message_def read_config_def alloc_def Let_def
          split: option.splits pyobj.splits sum.splits if_splits prod.splits)
qed

lemma iv_failure_trace:
  assumes "iv_on_message s m = Inl (e, s')"
  shows "trace s' = trace s \<or>
         (\<exists>q. trace s' = trace s @ [Publish ''data/processed/iv_measurement'' q])"
proof -
  have p: "\<And>pl pdata pl' s1. process_iv pl s = Inr (pdata, pl', s1) \<Longrightarrow>
             trace s1 = trace s @ [Publish ''data/processed/iv_measurement'' pl']"
    by (auto dest!: iv_cols simp: publish_def)
  show ?thesis
    using assms p
    by (auto simp: iv_on_message_def read_config_def alloc_def Let_def
          split: option.splits pyobj.splits sum.splits if_splits prod.splits)
qed

text \<open>
  C5. The claim fails in three ways. A negative area is no failure: the handlers do not
  look at the sign of the area, and the current-vs-time handler computes a negative
  current density, publishes the record and replaces the snapshot. An area of zero is no
  failure in the current-vs-voltage handler: numpy divides by zero without an exception,
  and the values that are not finite are published and stored. And a record with too few
  data columns is republished before the handler fails on it when the columns suffice
  for the computation: with two fields \<^verbatim>\<open>process_ivt\<close> and \<^verbatim>\<open>process_iv\<close> compute and
  publish, and the handler raises only afterwards, at column 4.
\<close>

theorem failures_of_the_failure_claim:
  "shown (it_on_message (init 3) (it_msg [0.6, 0.005, 100, 0] (- 0.1))) =
     Inr [[0, - 50, 100]] \<and>
   shown (iv_on_message (init 4) (iv_msg [[0.6, 0.005, 12, 0]] 0)) =
     Inr [[Fin 0.6, NonFinite, Fin 0, Fin 0]] \<and>
   it_on_message (init 3) (it_msg [0.6, 0.005] 0.1) =
     Inl (IndexError,
          publish ''data/processed/it_measurement''
            \<lparr>clear = Some False, data = Some [0.6, 0.005, 50, 30], pixel_area = Some 0.1,
             idn = ''px'', config_entry = None\<rparr> (init 3)) \<and>
   iv_on_message (init 4) (iv_msg [[0.6, 0.005]] 0.1) =
     Inl (IndexError,
          publish ''data/processed/iv_measurement''
            \<lparr>clear = Some False,
             data = Some [[PyFloat (Fin 0.6), PyFloat (Fin 0.005), PyFloat (Fin 50),
                           PyFloat (Fin 30)]],
             pixel_area = Some 0.1, idn = ''px'', config_entry = None\<rparr> (init 4))"
  by (simp add: shown_def it_on_message_def iv_on_message_def it_msg_def iv_msg_def
        data_msg_def init_def process_ivt_def process_iv_def it_accumulate_def
        np_append_axis0_def t_scale_def rectangular_def np_array_def append_col_def
        cols_0_4_def np_append_axis1_def np_zeros_def len_def alloc_def push_latest_def
        fold_in_def publish_def series_def np_empty_def Let_def numeral_2_eq_2)

text \<open>
  C5, as amended. On a data message that is not a clear:

  \<^item> A missing \<^verbatim>\<open>data\<close> or area (\<^verbatim>\<open>KeyError\<close>), a record or rows with fewer than two
    fields, or a sweep with no rows (\<^verbatim>\<open>IndexError\<close>), rows of different lengths
    (\<^verbatim>\<open>ValueError\<close>) and, in the current-vs-time handler only, an area of zero
    (\<^verbatim>\<open>ZeroDivisionError\<close>) propagate out of the handler as a failure to decode does,
    with the state as it was: nothing is published and nothing is cached.

  \<^item> A record of exactly two fields, or a sweep whose rows have exactly two fields,
    raises \<^verbatim>\<open>IndexError\<close> after the augmented record has been published: it is
    republished, and it is not cached.

  \<^item> Whenever a handler raises, on whatever message, the latest snapshot and every array
    are as they were before the message, and at most one publication has been added to
    the effects.

  \<^item> An area that is not zero, negative or positive, is no failure: in a well-formed
    state a record of three or more fields, and a sweep of four-field rows that the
    series can take (it is empty, or has as many rows as the sweep, or the sweep has one
    row), are computed, and the augmented record is cached. In the current-vs-voltage
    handler that holds for an area of zero too, where the current density and the power
    of every row are not finite.
\<close>

theorem computation_failure_frame:
  assumes "topic m = ''data/raw/it_measurement''" and "body m = Some (PDict pl)"
    and "clear pl = Some False"
    and "topic m' = ''data/raw/iv_measurement''" and "body m' = Some (PDict pl')"
    and "clear pl' = Some False"
  shows "(data pl = None \<or> pixel_area pl = None \<longrightarrow> it_on_message s m = Inl (KeyError, s))
       \<and> (data pl = Some d \<and> length d \<le> 1 \<and> pixel_area pl = Some A \<longrightarrow>
            it_on_message s m = Inl (IndexError, s))
       \<and> (data pl = Some d \<and> 2 \<le> length d \<and> pixel_area pl = Some 0 \<longrightarrow>
            it_on_message s m = Inl (ZeroDivisionError, s))
       \<and> (data pl = Some [v, i] \<and> pixel_area pl = Some A \<and> A \<noteq> 0 \<longrightarrow>
            it_on_message s m =
              Inl (IndexError,
                   publish ''data/processed/it_measurement''
                     (pl\<lparr>data := Some [v, i, i * 1000 / A, v * (i * 1000 / A)]\<rparr>) s))
       \<and> (wf 3 s \<and> data pl = Some d \<and> 3 \<le> length d \<and> pixel_area pl = Some A \<and> A \<noteq> 0 \<longrightarrow>
            (\<exists>s'. it_on_message s m = Inr s' \<and>
               msg (latest s') =
                 pl\<lparr>data := Some (d @ [d ! 1 * 1000 / A, d ! 0 * (d ! 1 * 1000 / A)])\<rparr>))
       \<and> (data pl' = None \<longrightarrow> iv_on_message t m' = Inl (KeyError, t))
       \<and> (data pl' = Some d' \<and> \<not> rectangular d' \<longrightarrow> iv_on_message t m' = Inl (ValueError, t))
       \<and> (data pl' = Some d' \<and> rectangular d' \<and> pixel_area pl' = None \<longrightarrow>
            iv_on_message t m' = Inl (KeyError, t))
       \<and> (data pl' = Some d' \<and> rectangular d' \<and> pixel_area pl' = Some A' \<and>
          (d' = [] \<or> length (hd d') \<le> 1) \<longrightarrow>
            iv_on_message t m' = Inl (IndexError, t))
       \<and> (data pl' = Some d' \<and> d' \<noteq> [] \<and> (\<forall>r \<in> set d'. length r = 2) \<and>
          pixel_area pl' = Some A' \<longrightarrow>
            iv_on_message t m' =
              Inl (IndexError,
                   publish ''data/processed/iv_measurement''
                     (pl'\<lparr>data := Some (map (map PyFloat)
                                           (map (iv_row A') (np_array d')))\<rparr>) t))
       \<and> (wf 4 t \<and> four_field_sweep pl' \<and>
          (len (series t (latest t)) = 0 \<or>
           length (iv_pairs pl') = len (series t (latest t)) \<or> length (iv_pairs pl') = 1) \<longrightarrow>
            (\<exists>t'. iv_on_message t m' = Inr t' \<and>
               msg (latest t') =
                 pl'\<lparr>data := Some (map (map PyFloat)
                          (map (iv_row (the (pixel_area pl')))
                             (np_array (the (data pl')))))\<rparr>))
       \<and> (\<forall>r. iv_row 0 r = map to_float r @ [NonFinite, NonFinite])
       \<and> (\<forall>x. body x = None \<longrightarrow> it_on_message s x = Inl (DecodeError, s))
       \<and> (\<forall>x. body x = None \<longrightarrow> iv_on_message t x = Inl (DecodeError, t))
       \<and> (\<forall>x e s'. it_on_message s x = Inl (e, s') \<longrightarrow>
             latest s' = latest s \<and> heap s' = heap s \<and>
             (trace s' = trace s \<or>
              (\<exists>q. trace s' = trace s @ [Publish ''data/processed/it_measurement'' q])))
       \<and> (\<forall>x e t'. iv_on_message t x = Inl (e, t') \<longrightarrow>
             latest t' = latest t \<and> heap t' = heap t \<and>
             (trace t' = trace t \<or>
              (\<exists>q. trace t' = trace t @ [Publish ''data/processed/iv_measurement'' q])))"
proof -
  have c1: "data pl = None \<or> pixel_area pl = None \<longrightarrow> it_on_message s m = Inl (KeyError, s)"
    using assms(1-3) by (auto simp: it_on_message_def process_ivt_def split: option.splits)
  have c2: "data pl = Some d \<and> length d \<le> 1 \<and> pixel_area pl = Some A \<longrightarrow>
            it_on_message s m = Inl (IndexError, s)"
    using assms(1-3) by (auto simp: it_on_message_def process_ivt_def)
  have c3: "data pl = Some d \<and> 2 \<le> length d \<and> pixel_area pl = Some 0 \<longrightarrow>
            it_on_message s m = Inl (ZeroDivisionError, s)"
    using assms(1-3) by (auto simp: it_on_message_def process_ivt_def)
  have c4: "data pl = Some [v, i] \<and> pixel_area pl = Some A \<and> A \<noteq> 0 \<longrightarrow>
            it_on_message s m =
              Inl (IndexError,
                   publish ''data/processed/it_measurement''
                     (pl\<lparr>data := Some [v, i, i * 1000 / A, v * (i * 1000 / A)]\<rparr>) s)"
    using it_late_failure [OF assms(1-3)] by blast
  have c5: "wf 3 s \<and> data pl = Some d \<and> 3 \<le> length d \<and> pixel_area pl = Some A \<and> A \<noteq> 0 \<longrightarrow>
            (\<exists>s'. it_on_message s m = Inr s' \<and>
               msg (latest s') =
                 pl\<lparr>data := Some (d @ [d ! 1 * 1000 / A, d ! 0 * (d ! 1 * 1000 / A)])\<rparr>)"
    using it_accepts [OF _ assms(1-3)] by blast
  have c6: "data pl' = None \<longrightarrow> iv_on_message t m' = Inl (KeyError, t)"
    using assms(4-6) by (auto simp: iv_on_message_def process_iv_def)
  have c7: "data pl' = Some d' \<and> \<not> rectangular d' \<longrightarrow>
            iv_on_message t m' = Inl (ValueError, t)"
    using assms(4-6) by (auto simp: iv_on_message_def process_iv_def)
  have c8: "data pl' = Some d' \<and> rectangular d' \<and> pixel_area pl' = None \<longrightarrow>
            iv_on_message t m' = Inl (KeyError, t)"
    using assms(4-6) by (auto simp: iv_on_message_def process_iv_def)
  have c9: "data pl' = Some d' \<and> rectangular d' \<and> pixel_area pl' = Some A' \<and>
          (d' = [] \<or> length (hd d') \<le> 1) \<longrightarrow>
            iv_on_message t m' = Inl (IndexError, t)"
    using assms(4-6) by (auto simp: iv_on_message_def process_iv_def)
  have c10: "data pl' = Some d' \<and> d' \<noteq> [] \<and> (\<forall>r \<in> set d'. length r = 2) \<and>
          pixel_area pl' = Some A' \<longrightarrow>
            iv_on_message t m' =
              Inl (IndexError,
                   publish ''data/processed/iv_measurement''
                     (pl'\<lparr>data := Some (map (map PyFloat)
                                           (map (iv_row A') (np_array d')))\<rparr>) t)"
    using iv_late_failure [OF assms(4-6)] by blast
  have c11: "wf 4 t \<and> four_field_sweep pl' \<and>
          (len (series t (latest t)) = 0 \<or>
           length (iv_pairs pl') = len (series t (latest t)) \<or> length (iv_pairs pl') = 1) \<longrightarrow>
            (\<exists>t'. iv_on_message t m' = Inr t' \<and>
               msg (latest t') =
                 pl'\<lparr>data := Some (map (map PyFloat)
                          (map (iv_row (the (pixel_area pl')))
                             (np_array (the (data pl')))))\<rparr>)"
    using iv_accepts [OF _ assms(4,5)] by blast
  have c12: "\<forall>r. iv_row 0 r = map to_float r @ [NonFinite, NonFinite]"
  proof
    fix r
    have "\<And>x. np_div x 0 = NonFinite" by (case_tac x) simp_all
    then show "iv_row 0 r = map to_float r @ [NonFinite, NonFinite]"
      by (cases "to_float (r ! 0)") simp_all
  qed
  have c13: "\<forall>x. body x = None \<longrightarrow> it_on_message s x = Inl (DecodeError, s)"
    by (simp add: it_on_message_def)
  have c14: "\<forall>x. body x = None \<longrightarrow> iv_on_message t x = Inl (DecodeError, t)"
    by (simp add: iv_on_message_def)
  have c15: "\<forall>x e s'. it_on_message s x = Inl (e, s') \<longrightarrow>
             latest s' = latest s \<and> heap s' = heap s \<and>
             (trace s' = trace s \<or>
              (\<exists>q. trace s' = trace s @ [Publish ''data/processed/it_measurement'' q]))"
    using it_failure_frame it_failure_trace by blast
  have c16: "\<forall>x e t'. iv_on_message t x = Inl (e, t') \<longrightarrow>
             latest t' = latest t \<and> heap t' = heap t \<and>
             (trace t' = trace t \<or>
              (\<exists>q. trace t' = trace t @ [Publish ''data/processed/iv_measurement'' q]))"
    using iv_failure_frame iv_failure_trace by blast
  from c1 c2 c3 c4 c5 c6 c7 c8 c9 c10 c11 c12 c13 c14 c15 c16 show ?thesis
    by (intro conjI)
qed

text \<open>
  For example, from the initial states: an area of zero raises \<^verbatim>\<open>ZeroDivisionError\<close> in
  the current-vs-time handler and a sweep with no area raises \<^verbatim>\<open>KeyError\<close>, neither with
  an effect; a record and a sweep of two fields are published and then raise
  \<^verbatim>\<open>IndexError\<close>, the snapshot staying as it was; and a record with a negative area and
  a sweep with the area zero are cached with their derived values.
\<close>

theorem computation_failure_frame_example:
  "it_on_message (init 3) (it_msg [0.6, 0.005, 100, 0] 0) = Inl (ZeroDivisionError, init 3) \<and>
   iv_on_message (init 4)
     \<lparr>topic = ''data/raw/iv_measurement'',
      body = Some (PDict \<lparr>clear = Some False,
                          data = Some [[PyFloat (Fin 0.6), PyFloat (Fin 0.005),
                                        PyFloat (Fin 12), PyFloat (Fin 0)]],
                          pixel_area = None, idn = ''px'', config_entry = None\<rparr>)\<rparr> =
     Inl (KeyError, init 4) \<and>
   effects (it_on_message (init 3) (it_msg [0.6, 0.005] 0.1)) =
     [Publish ''data/processed/it_measurement''
        \<lparr>clear = Some False, data = Some [0.6, 0.005, 50, 30], pixel_area = Some 0.1,
         idn = ''px'', config_entry = None\<rparr>] \<and>
   shown (it_on_message (init 3) (it_msg [0.6, 0.005] 0.1)) = Inl IndexError \<and>
   effects (iv_on_message (init 4) (iv_msg [[0.6, 0.005]] 0.1)) =
     [Publish ''data/processed/iv_measurement''
        \<lparr>clear = Some False,
         data = Some [[PyFloat (Fin 0.6), PyFloat (Fin 0.005), PyFloat (Fin 50),
                       PyFloat (Fin 30)]],
         pixel_area = Some 0.1, idn = ''px'', config_entry = None\<rparr>] \<and>
   shown (iv_on_message (init 4) (iv_msg [[0.6, 0.005]] 0.1)) = Inl IndexError \<and>
   (\<exists>s'. it_on_message (init 3) (it_msg [0.6, 0.005, 100, 0] (- 0.1)) = Inr s' \<and>
      data (msg (latest s')) = Some [0.6, 0.005, 100, 0, - 50, - 30]) \<and>
   (\<exists>t'. iv_on_message (init 4) (iv_msg [[0.6, 0.005, 12, 0]] 0) = Inr t' \<and>
      data (msg (latest t')) =
        Some [[PyFloat (Fin 0.6), PyFloat (Fin 0.005), PyFloat (Fin 12), PyFloat (Fin 0),
               PyFloat NonFinite, PyFloat NonFinite]])"
proof -
  let ?s = "init 3 :: (real list, real) plotter"
  let ?t = "init 4 :: (pynum list list, npfloat) plotter"
  let ?it = "\<lambda>d A. \<lparr>clear = Some False, data = Some d, pixel_area = Some A, idn = ''px'',
                    config_entry = None\<rparr> :: real list payload"
  let ?iv = "\<lambda>d A. \<lparr>clear = Some False, data = Some (map (map (\<lambda>x. PyFloat (Fin x))) d),
                    pixel_area = A, idn = ''px'', config_entry = None\<rparr>
                 :: pynum list list payload"
  let ?ivm = "\<lambda>d A. \<lparr>topic = ''data/raw/iv_measurement'', body = Some (PDict (?iv d A))\<rparr>"
  have it: "\<And>d A. topic (it_msg d A) = ''data/raw/it_measurement''"
    "\<And>d A. body (it_msg d A) = Some (PDict (?it d A))" "\<And>d A. clear (?it d A) = Some False"
    by (simp_all add: it_msg_def data_msg_def)
  have iv: "\<And>d A. topic (?ivm d A) = ''data/raw/iv_measurement''"
    "\<And>d A. body (?ivm d A) = Some (PDict (?iv d A))" "\<And>d A. clear (?iv d A) = Some False"
    by simp_all
  have ivm: "\<And>d A. iv_msg d A = ?ivm d (Some A)"
    by (simp add: iv_msg_def data_msg_def)
  let ?d4 = "[0.6, 0.005, 100, 0] :: real list"
  let ?r4 = "[[0.6, 0.005, 12, 0]] :: real list list"
  let ?d2 = "[0.6, 0.005] :: real list"
  let ?r2 = "[[0.6, 0.005]] :: real list list"
  note a = computation_failure_frame [where s = ?s and t = ?t and d = ?d4
      and d' = "map (map (\<lambda>x. PyFloat (Fin x))) ?r4",
      OF it [of ?d4 0] iv [of ?r4 None]]
  have w1: "it_on_message ?s (it_msg ?d4 0) = Inl (ZeroDivisionError, ?s)"
    using a by simp
  have w2: "iv_on_message ?t (?ivm ?r4 None) = Inl (KeyError, ?t)"
    using a by (simp add: rectangular_def)
  note b = computation_failure_frame [where s = ?s and t = ?t and A = "0.1" and v = "0.6"
      and i = "0.005" and d' = "map (map (\<lambda>x. PyFloat (Fin x))) ?r2" and A' = "0.1",
      OF it [of ?d2 "0.1"] iv [of ?r2 "Some 0.1"]]
  have w3: "it_on_message ?s (it_msg ?d2 0.1) =
      Inl (IndexError, publish ''data/processed/it_measurement''
                         (?it [0.6, 0.005, 50, 30] 0.1) ?s)"
    using b by simp
  have w4: "iv_on_message ?t (iv_msg ?r2 0.1) =
      Inl (IndexError, publish ''data/processed/iv_measurement''
             ((?iv [] (Some 0.1))
                \<lparr>data := Some [[PyFloat (Fin 0.6), PyFloat (Fin 0.005), PyFloat (Fin 50),
                                PyFloat (Fin 30)]]\<rparr>) ?t)"
    using b unfolding ivm by (simp add: np_array_def)
  note c = computation_failure_frame [where s = ?s and t = ?t and d = ?d4 and A = "- 0.1",
      OF it [of ?d4 "- 0.1"] iv [of ?r4 "Some 0"]]
  have f: "four_field_sweep (?iv ?r4 (Some 0))" by (simp add: four_field_sweep_def)
  have e: "len (series ?t (latest ?t)) = 0"
    by (simp add: init_def series_def len_def np_empty_def)
  have w5: "\<exists>s'. it_on_message ?s (it_msg ?d4 (- 0.1)) = Inr s' \<and>
      data (msg (latest s')) = Some [0.6, 0.005, 100, 0, - 50, - 30]"
  proof -
    have "wf 3 ?s \<and> data (?it ?d4 (- 0.1)) = Some ?d4 \<and> 3 \<le> length ?d4 \<and>
          pixel_area (?it ?d4 (- 0.1)) = Some (- 0.1) \<and> (- 0.1 :: real) \<noteq> 0"
      using wf_init [of 3] by simp
    from c [THEN conjunct2, THEN conjunct2, THEN conjunct2, THEN conjunct2, THEN conjunct1, THEN mp, OF this]
    show ?thesis by auto
  qed
  have w6: "\<exists>t'. iv_on_message ?t (iv_msg ?r4 0) = Inr t' \<and>
      data (msg (latest t')) =
        Some [[PyFloat (Fin 0.6), PyFloat (Fin 0.005), PyFloat (Fin 12), PyFloat (Fin 0),
               PyFloat NonFinite, PyFloat NonFinite]]"
  proof -
    have "wf 4 ?t \<and> four_field_sweep (?iv ?r4 (Some 0)) \<and>
          (len (series ?t (latest ?t)) = 0 \<or>
           length (iv_pairs (?iv ?r4 (Some 0))) = len (series ?t (latest ?t)) \<or>
           length (iv_pairs (?iv ?r4 (Some 0))) = 1)"
      using wf_init [of 4] f e by simp
    from c [THEN conjunct2, THEN conjunct2, THEN conjunct2, THEN conjunct2, THEN conjunct2, THEN conjunct2, THEN conjunct2, THEN conjunct2, THEN conjunct2, THEN conjunct2, THEN conjunct1, THEN mp, OF this]
    show ?thesis unfolding ivm by (auto simp: np_array_def)
  qed
  have tr: "trace ?s = []" "trace ?t = []" by (simp_all add: init_def)
  show ?thesis
    using w1 w2 w3 w4 w5 w6 tr
    by (simp add: effects_def shown_def publish_def ivm)
qed

subsection \<open>Clear\<close>

text \<open>
  C6. A data message with \<^verbatim>\<open>clear\<close> true, in whatever state it arrives, makes the latest
  snapshot a new array of no rows and of the kind's column count (3 for current against
  time, 4 for current against voltage), with the message's payload as received; the only
  effect is the push of that snapshot: nothing is computed and nothing is published. The
  arrays of the store are left as they were.
\<close>

theorem clear_resets_series:
  assumes "body m = Some (PDict pl)" and "clear pl = Some True"
    and "body m' = Some (PDict pl')" and "clear pl' = Some True"
  shows "(topic m = ''data/raw/it_measurement'' \<longrightarrow>
            (\<exists>s'. it_on_message s m = Inr s' \<and>
               len (series s' (latest s')) = 0 \<and> ncols (series s' (latest s')) = 3 \<and>
               msg (latest s') = pl \<and> trace s' = trace s @ [CachePush (latest s')] \<and>
               take (length (heap s)) (heap s') = heap s))
       \<and> (topic m' = ''data/raw/iv_measurement'' \<longrightarrow>
            (\<exists>t'. iv_on_message t m' = Inr t' \<and>
               len (series t' (latest t')) = 0 \<and> ncols (series t' (latest t')) = 4 \<and>
               msg (latest t') = pl' \<and> trace t' = trace t @ [CachePush (latest t')] \<and>
               take (length (heap t)) (heap t') = heap t))"
  using assms
  by (simp add: it_on_message_def iv_on_message_def alloc_def push_latest_def series_def
        len_def np_empty_def)

text \<open>
  For example, after two records of the current-vs-time kind, or one sweep of the
  current-vs-voltage kind, a clear leaves a series of no rows.
\<close>

theorem clear_resets_series_example:
  "shown (run it_on_message (init 3)
     [it_msg [0.6, 0.005, 100, 0] 0.1, it_msg [0.6, 0.005, 100.5, 0] 0.1,
      data_msg ''data/raw/it_measurement'' True [] 0.1]) = Inr [] \<and>
   shown (run iv_on_message (init 4)
     [iv_msg [[0.6, 0.005, 12, 0]] 0.1,
      data_msg ''data/raw/iv_measurement'' True [] 0.1]) = Inr []"
proof -
  let ?c = "data_msg ''data/raw/it_measurement'' True [] 0.1 :: real list mqtt_msg"
  let ?c' = "data_msg ''data/raw/iv_measurement'' True [] 0.1 :: pynum list list mqtt_msg"
  let ?ms = "[it_msg [0.6, 0.005, 100, 0] 0.1, it_msg [0.6, 0.005, 100.5, 0] 0.1]"
  let ?ms' = "[iv_msg [[0.6, 0.005, 12, 0]] 0.1]"
  obtain s where s: "run it_on_message (init 3) ?ms = Inr s"
    by (simp add: it_on_message_def it_msg_def data_msg_def init_def process_ivt_def
          it_accumulate_def np_append_axis0_def t_scale_def alloc_def push_latest_def
          fold_in_def publish_def series_def np_empty_def Let_def)
  obtain t where t: "run iv_on_message (init 4) ?ms' = Inr t"
    by (simp add: iv_on_message_def iv_msg_def data_msg_def init_def process_iv_def
          rectangular_def np_array_def append_col_def cols_0_4_def np_append_axis1_def np_zeros_def
          len_def alloc_def push_latest_def fold_in_def publish_def series_def np_empty_def Let_def)
  let ?p = "\<lparr>clear = Some True, data = Some [], pixel_area = Some 0.1, idn = ''px'',
             config_entry = None\<rparr> :: real list payload"
  let ?p' = "\<lparr>clear = Some True, data = Some [], pixel_area = Some 0.1, idn = ''px'',
              config_entry = None\<rparr> :: pynum list list payload"
  have h: "body ?c = Some (PDict ?p)" "clear ?p = Some True"
    "body ?c' = Some (PDict ?p')" "clear ?p' = Some True"
    "topic ?c = ''data/raw/it_measurement''" "topic ?c' = ''data/raw/iv_measurement''"
    by (simp_all add: data_msg_def)
  from clear_resets_series [of ?c ?p ?c' ?p' s t, OF h(1-4)] h(5,6)
  obtain s' t' where s': "it_on_message s ?c = Inr s'" "len (series s' (latest s')) = 0"
    and t': "iv_on_message t ?c' = Inr t'" "len (series t' (latest t')) = 0"
    by blast
  have "run it_on_message (init 3) (?ms @ [?c]) = Inr s'"
    unfolding run_snoc s using s' by simp
  moreover have "run iv_on_message (init 4) (?ms' @ [?c']) = Inr t'"
    unfolding run_snoc t using t' by simp
  ultimately show ?thesis using s' t' by (simp add: shown_def len_def)
qed

subsection \<open>The order of the effects\<close>

lemma process_ivt_Inr:
  assumes "process_ivt pl kind s = Inr (pdata, q, s1)"
  shows "\<exists>d A. data pl = Some d \<and> pixel_area pl = Some A \<and>
           q = pl\<lparr>data := Some (d @ [d ! 1 * 1000 / A, d ! 0 * (d ! 1 * 1000 / A)])\<rparr>"
  using assms by (auto simp: process_ivt_def Let_def split: option.splits if_splits)

lemma process_iv_Inr:
  assumes "process_iv pl s = Inr (pdata, q, s1)"
  shows "\<exists>d A. data pl = Some d \<and> pixel_area pl = Some A \<and>
           q = pl\<lparr>data := Some (map (map PyFloat) (map (iv_row A) (np_array d)))\<rparr>"
proof -
  from assms obtain d A where d: "data pl = Some d" "pixel_area pl = Some A"
    "rectangular d" "d \<noteq> []" "2 \<le> length (hd d)"
    by (auto simp: process_iv_def Let_def split: option.splits if_splits)
  have "\<forall>r \<in> set d. length r = length (hd d)" using d(3) by (simp add: rectangular_def)
  from process_iv_ok [OF d(1,2) this d(4,5), of s] assms
  have "q = pl\<lparr>data := Some (map (map PyFloat) (map (iv_row A) (np_array d)))\<rparr>" by simp
  then show ?thesis using d(1,2) by blast
qed

lemma it_success_trace:
  assumes "topic m = ''data/raw/it_measurement''" "body m = Some (PDict pl)"
    "clear pl = Some False" "it_on_message s m = Inr s'"
  shows "trace s' = trace s @ [Publish ''data/processed/it_measurement'' (msg (latest s')),
                               Fold (data_ref (latest s')), CachePush (latest s')] \<and>
         (\<exists>d A. data pl = Some d \<and> pixel_area pl = Some A \<and>
            msg (latest s') =
              pl\<lparr>data := Some (d @ [d ! 1 * 1000 / A, d ! 0 * (d ! 1 * 1000 / A)])\<rparr>)"
proof -
  obtain pdata q s1 where p: "process_ivt pl ''it_measurement'' s = Inr (pdata, q, s1)"
    using assms by (auto simp: it_on_message_def split: sum.splits)
  then have s1: "s1 = publish (''data/processed/'' @ ''it_measurement'') q s"
    using process_ivt_state by blast
  have l: "latest s' = \<lparr>msg = q, data_ref = length (heap s)\<rparr> \<and>
        trace s' = trace s1 @ [Fold (length (heap s)),
                               CachePush \<lparr>msg = q, data_ref = length (heap s)\<rparr>]"
    using assms p s1
    by (auto simp: it_on_message_def alloc_def push_latest_def fold_in_def publish_def
          split: sum.splits)
  show ?thesis using l process_ivt_Inr [OF p] s1 by (simp add: publish_def)
qed

lemma iv_success_trace:
  assumes "topic m = ''data/raw/iv_measurement''" "body m = Some (PDict pl)"
    "clear pl = Some False" "iv_on_message s m = Inr s'"
  shows "trace s' = trace s @ [Publish ''data/processed/iv_measurement'' (msg (latest s')),
                               Fold (data_ref (latest s')), CachePush (latest s')] \<and>
         (\<exists>d A. data pl = Some d \<and> pixel_area pl = Some A \<and>
            msg (latest s') =
              pl\<lparr>data := Some (map (map PyFloat) (map (iv_row A) (np_array d)))\<rparr>)"
proof -
  obtain pdata q s1 where p: "process_iv pl s = Inr (pdata, q, s1)"
    using assms by (auto simp: iv_on_message_def split: sum.splits)
  then have s1: "s1 = publish ''data/processed/iv_measurement'' q s"
    using iv_cols by blast
  have l: "msg (latest s') = q \<and>
        trace s' = trace s1 @ [Fold (data_ref (latest s')), CachePush (latest s')]"
    using assms p s1
    by (auto simp: iv_on_message_def alloc_def push_latest_def fold_in_def publish_def Let_def
          split: sum.splits if_splits)
  show ?thesis using l process_iv_Inr [OF p] s1 by (simp add: publish_def)
qed

lemma it_failure_cases:
  assumes "topic m = ''data/raw/it_measurement''" "body m = Some (PDict pl)"
    "clear pl = Some False" "it_on_message s m = Inl (e, s1)"
  shows "(process_ivt pl ''it_measurement'' s = Inl e \<and> s1 = s) \<or>
         (\<exists>pdata q. process_ivt pl ''it_measurement'' s = Inr (pdata, q, s1) \<and>
            it_accumulate (series s (latest s)) pdata = Inl e \<and>
            trace s1 = trace s @ [Publish ''data/processed/it_measurement'' q])"
proof (cases "process_ivt pl ''it_measurement'' s")
  case (Inl e')
  then show ?thesis using assms by (simp add: it_on_message_def)
next
  case (Inr r)
  obtain pdata q u where r: "r = (pdata, q, u)" by (cases r)
  have u: "u = publish (''data/processed/'' @ ''it_measurement'') q s"
    using Inr r process_ivt_state by blast
  have "it_accumulate (series s (latest s)) pdata = Inl e \<and> s1 = u"
    using assms Inr r
    by (auto simp: it_on_message_def alloc_def split: sum.splits)
  then show ?thesis using Inr r u by (simp add: publish_def)
qed

lemma iv_failure_cases:
  assumes "topic m = ''data/raw/iv_measurement''" "body m = Some (PDict pl)"
    "clear pl = Some False" "iv_on_message s m = Inl (e, s1)"
  shows "(process_iv pl s = Inl e \<and> s1 = s) \<or>
         (\<exists>pdata q. process_iv pl s = Inr (pdata, q, s1) \<and>
            trace s1 = trace s @ [Publish ''data/processed/iv_measurement'' q])"
proof (cases "process_iv pl s")
  case (Inl e')
  then show ?thesis using assms by (simp add: iv_on_message_def)
next
  case (Inr r)
  obtain pdata q u where r: "r = (pdata, q, u)" by (cases r)
  have u: "u = publish ''data/processed/iv_measurement'' q s"
    using Inr r iv_cols by blast
  have "s1 = u"
    using assms Inr r
    by (auto simp: iv_on_message_def alloc_def Let_def split: sum.splits if_splits)
  then show ?thesis using Inr r u by (simp add: publish_def)
qed

text \<open>
  C7. The publication is started before the cache is replaced, and before the record is
  folded into the series: the handlers call \<^verbatim>\<open>process_ivt\<close> or \<^verbatim>\<open>process_iv\<close>, which
  start the publishing thread before they return, and only then fold the record in and
  push the snapshot. Here are the effects of one data message, in their order.
\<close>

theorem publish_precedes_push:
  "effects (it_on_message (init 3) (it_msg [0.6, 0.005, 100, 0] 0.1)) =
     [Publish ''data/processed/it_measurement''
        \<lparr>clear = Some False, data = Some [0.6, 0.005, 100, 0, 50, 30],
         pixel_area = Some 0.1, idn = ''px'', config_entry = None\<rparr>,
      Fold 1,
      CachePush
        \<lparr>msg = \<lparr>clear = Some False, data = Some [0.6, 0.005, 100, 0, 50, 30],
                 pixel_area = Some 0.1, idn = ''px'', config_entry = None\<rparr>,
         data_ref = 1\<rparr>]"
  by (simp add: effects_def it_on_message_def it_msg_def data_msg_def init_def
        process_ivt_def it_accumulate_def np_append_axis0_def t_scale_def alloc_def
        push_latest_def fold_in_def publish_def series_def np_empty_def Let_def)

text \<open>
  C7, as amended. For every data message that is not a clear, the steps occur in the
  order: decode, computation of the derived quantities, start of the publication of the
  augmented record on the processed-data topic, accumulation into the series, push of
  the snapshot. So a handler that returns has added exactly three effects, the
  publication, the fold and the push, in this order; the record published is the message
  of the snapshot pushed, and the fold is at the address the snapshot refers to. And a
  handler that raises has either failed in the computation, with no effect at all, or
  after the computation: then the publication has been started, and neither the fold
  nor the push has happened (in the current-vs-time handler it is the accumulation that
  has raised).
\<close>

theorem handler_effect_order:
  assumes "topic m = ''data/raw/it_measurement''" and "body m = Some (PDict pl)"
    and "clear pl = Some False"
    and "topic m' = ''data/raw/iv_measurement''" and "body m' = Some (PDict pl')"
    and "clear pl' = Some False"
  shows "(it_on_message s m = Inr s' \<longrightarrow>
            trace s' = trace s @ [Publish ''data/processed/it_measurement'' (msg (latest s')),
                                  Fold (data_ref (latest s')), CachePush (latest s')] \<and>
            (\<exists>d A. data pl = Some d \<and> pixel_area pl = Some A \<and>
               msg (latest s') =
                 pl\<lparr>data := Some (d @ [d ! 1 * 1000 / A, d ! 0 * (d ! 1 * 1000 / A)])\<rparr>))
       \<and> (it_on_message s m = Inl (e, s1) \<longrightarrow>
            (process_ivt pl ''it_measurement'' s = Inl e \<and> s1 = s) \<or>
            (\<exists>pdata q. process_ivt pl ''it_measurement'' s = Inr (pdata, q, s1) \<and>
               it_accumulate (series s (latest s)) pdata = Inl e \<and>
               trace s1 = trace s @ [Publish ''data/processed/it_measurement'' q]))
       \<and> (iv_on_message t m' = Inr t' \<longrightarrow>
            trace t' = trace t @ [Publish ''data/processed/iv_measurement'' (msg (latest t')),
                                  Fold (data_ref (latest t')), CachePush (latest t')] \<and>
            (\<exists>d A. data pl' = Some d \<and> pixel_area pl' = Some A \<and>
               msg (latest t') =
                 pl'\<lparr>data := Some (map (map PyFloat) (map (iv_row A) (np_array d)))\<rparr>))
       \<and> (iv_on_message t m' = Inl (e', t1) \<longrightarrow>
            (process_iv pl' t = Inl e' \<and> t1 = t) \<or>
            (\<exists>pdata q. process_iv pl' t = Inr (pdata, q, t1) \<and>
               trace t1 = trace t @ [Publish ''data/processed/iv_measurement'' q]))"
  using it_success_trace [OF assms(1-3), of s s'] it_failure_cases [OF assms(1-3), of s e s1]
    iv_success_trace [OF assms(4-6), of t t'] iv_failure_cases [OF assms(4-6), of t e' t1]
  by blast

text \<open>
  For example, from the initial states. The first record and the first sweep add the
  publication, the fold and the push, in this order. A record of two fields is
  published, and then the accumulation raises; so is a sweep of two rows after a sweep
  of one row.
\<close>

theorem handler_effect_order_example:
  "map (case_effect (\<lambda>tp q. tp) (\<lambda>r. ''fold'') (\<lambda>sn. ''push''))
     (effects (it_on_message (init 3) (it_msg [0.6, 0.005, 100, 0] 0.1))) =
     [''data/processed/it_measurement'', ''fold'', ''push''] \<and>
   map (case_effect (\<lambda>tp q. tp) (\<lambda>r. ''fold'') (\<lambda>sn. ''push''))
     (effects (iv_on_message (init 4) (iv_msg [[0.6, 0.005, 12, 0]] 0.1))) =
     [''data/processed/iv_measurement'', ''fold'', ''push''] \<and>
   map (case_effect (\<lambda>tp q. tp) (\<lambda>r. ''fold'') (\<lambda>sn. ''push''))
     (effects (it_on_message (init 3) (it_msg [0.6, 0.005] 0.1))) =
     [''data/processed/it_measurement''] \<and>
   map (case_effect (\<lambda>tp q. tp) (\<lambda>r. ''fold'') (\<lambda>sn. ''push''))
     (effects (run iv_on_message (init 4)
        [iv_msg [[0.6, 0.005, 12, 0]] 0.1,
         iv_msg [[0.7, 0.004, 13, 0], [0.8, 0.003, 14, 0]] 0.1])) =
     [''data/processed/iv_measurement'', ''fold'', ''push'', ''data/processed/iv_measurement'']"
proof -
  let ?s = "init 3 :: (real list, real) plotter"
  let ?t = "init 4 :: (pynum list list, npfloat) plotter"
  let ?it = "\<lambda>d. \<lparr>clear = Some False, data = Some d, pixel_area = Some 0.1, idn = ''px'',
                  config_entry = None\<rparr> :: real list payload"
  let ?iv = "\<lambda>d. \<lparr>clear = Some False, data = Some (map (map (\<lambda>x. PyFloat (Fin x))) d),
                  pixel_area = Some 0.1, idn = ''px'', config_entry = None\<rparr>
               :: pynum list list payload"
  let ?k = "case_effect (\<lambda>tp q. tp) (\<lambda>r. ''fold'') (\<lambda>sn. ''push'')"
  have it: "\<And>d. topic (it_msg d 0.1) = ''data/raw/it_measurement''"
    "\<And>d. body (it_msg d 0.1) = Some (PDict (?it d))" "\<And>d. clear (?it d) = Some False"
    by (simp_all add: it_msg_def data_msg_def)
  have iv: "\<And>d. topic (iv_msg d 0.1) = ''data/raw/iv_measurement''"
    "\<And>d. body (iv_msg d 0.1) = Some (PDict (?iv d))" "\<And>d. clear (?iv d) = Some False"
    by (simp_all add: iv_msg_def data_msg_def)
  let ?m = "it_msg [0.6, 0.005, 100, 0] 0.1"
  let ?m' = "iv_msg [[0.6, 0.005, 12, 0]] 0.1"
  let ?n = "it_msg [0.6, 0.005] 0.1"
  let ?n' = "iv_msg [[0.7, 0.004, 13, 0], [0.8, 0.003, 14, 0]] 0.1"
  have tr: "trace ?s = []" "trace ?t = []" by (simp_all add: init_def)
  obtain s' where s': "it_on_message ?s ?m = Inr s'"
    by (simp add: it_on_message_def it_msg_def data_msg_def init_def process_ivt_def
          it_accumulate_def np_append_axis0_def t_scale_def alloc_def push_latest_def
          fold_in_def publish_def series_def np_empty_def Let_def)
  obtain t' where t': "iv_on_message ?t ?m' = Inr t'" and wt: "wf 4 t'"
    and lt: "len (series t' (latest t')) = 1"
    by (simp add: iv_on_message_def iv_msg_def data_msg_def init_def process_iv_def
          rectangular_def np_array_def append_col_def cols_0_4_def np_append_axis1_def
          np_zeros_def len_def alloc_def push_latest_def fold_in_def publish_def series_def
          np_empty_def wf_def Let_def numeral_2_eq_2)
  obtain s1 where s1: "it_on_message ?s ?n = Inl (IndexError, s1)"
    by (simp add: it_on_message_def it_msg_def data_msg_def process_ivt_def
          it_accumulate_def Let_def)
  let ?d = "map (map (\<lambda>x. PyFloat (Fin x))) [[0.7, 0.004, 13, 0], [0.8, 0.003, 14, 0]]"
  have d: "data (?iv [[0.7, 0.004, 13, 0], [0.8, 0.003, 14, 0]]) = Some ?d" "?d \<noteq> []"
    "\<forall>r \<in> set ?d. length r = 4"
    "pixel_area (?iv [[0.7, 0.004, 13, 0], [0.8, 0.003, 14, 0]]) = Some 0.1"
    by simp_all
  obtain t1 where t1: "iv_on_message t' ?n' = Inl (ValueError, t1)"
    using iv_data_step [OF wt iv d refl refl refl] lt by simp
  note a = handler_effect_order [OF it [of "[0.6, 0.005, 100, 0]"] iv [of "[[0.6, 0.005, 12, 0]]"],
      where s = ?s and s' = s' and t = ?t and t' = t']
  have e1: "trace s' = [Publish ''data/processed/it_measurement'' (msg (latest s')),
                        Fold (data_ref (latest s')), CachePush (latest s')]"
    using a [THEN conjunct1, THEN mp, OF s'] tr by simp
  have e2: "trace t' = [Publish ''data/processed/iv_measurement'' (msg (latest t')),
                        Fold (data_ref (latest t')), CachePush (latest t')]"
    using a [THEN conjunct2, THEN conjunct2, THEN conjunct1, THEN mp, OF t'] tr by simp
  note b = handler_effect_order [OF it [of "[0.6, 0.005]"]
      iv [of "[[0.7, 0.004, 13, 0], [0.8, 0.003, 14, 0]]"],
      where s = ?s and e = IndexError and ?s1.0 = s1 and t = t' and e' = ValueError
        and ?t1.0 = t1]
  have p3: "process_ivt (?it [0.6, 0.005]) ''it_measurement'' ?s \<noteq> Inl IndexError"
    by (simp add: process_ivt_def Let_def)
  have e3: "\<exists>q. trace s1 = [Publish ''data/processed/it_measurement'' q]"
    using b [THEN conjunct2, THEN conjunct1, THEN mp, OF s1] p3 tr by auto
  have p4: "process_iv (?iv [[0.7, 0.004, 13, 0], [0.8, 0.003, 14, 0]]) t' \<noteq> Inl ValueError"
    by (simp add: process_iv_def rectangular_def Let_def)
  have e4: "\<exists>q. trace t1 = trace t' @ [Publish ''data/processed/iv_measurement'' q]"
    using b [THEN conjunct2, THEN conjunct2, THEN conjunct2, THEN mp, OF t1] p4 by auto
  have r: "run iv_on_message ?t [?m', ?n'] = Inl (ValueError, t1)"
    using t' t1 by simp
  show ?thesis
    unfolding effects_def s' t' s1 r using e1 e2 e3 e4 by auto
qed

subsection \<open>Pause\<close>

text \<open>
  C8. A pause message with a boolean payload changes the state in the pause flag only,
  which becomes the payload: the arrays, the latest snapshot, the configuration and the
  effects are those of before. And the pause flag has no part in how any other message
  is handled: from two states that differ in the flag only, a handler returns (or
  raises) the same, with states that again differ in the flag only.
\<close>

theorem pause_only_flag:
  assumes "topic m = ''plotter/pause''" and "body m = Some (PBool b)"
    and "topic m' = ''plotter/pause''" and "body m' = Some (PBool b')"
  shows "it_on_message s m = Inr (s\<lparr>paused := PBool b\<rparr>)
       \<and> iv_on_message t m' = Inr (t\<lparr>paused := PBool b'\<rparr>)
       \<and> (\<forall>x f. topic x \<noteq> ''plotter/pause'' \<longrightarrow>
             it_on_message (s\<lparr>paused := f\<rparr>) x =
               map_sum (\<lambda>(e, u). (e, u\<lparr>paused := f\<rparr>)) (\<lambda>u. u\<lparr>paused := f\<rparr>)
                 (it_on_message s x))
       \<and> (\<forall>x f. topic x \<noteq> ''plotter/pause'' \<longrightarrow>
             iv_on_message (t\<lparr>paused := f\<rparr>) x =
               map_sum (\<lambda>(e, u). (e, u\<lparr>paused := f\<rparr>)) (\<lambda>u. u\<lparr>paused := f\<rparr>)
                 (iv_on_message t x))"
proof -
  have "it_on_message s m = Inr (s\<lparr>paused := PBool b\<rparr>)"
    using assms(1,2) by (simp add: it_on_message_def)
  moreover have "iv_on_message t m' = Inr (t\<lparr>paused := PBool b'\<rparr>)"
    using assms(3,4) by (simp add: iv_on_message_def)
  ultimately show ?thesis
    using it_on_message_paused [where s = s] iv_on_message_paused [where s = t] by blast
qed

text \<open>
  For example, pausing the initial state sets the flag and nothing else, and the record
  that follows is folded in as it is without the pause.
\<close>

theorem pause_only_flag_example:
  "it_on_message (init 3) \<lparr>topic = ''plotter/pause'', body = Some (PBool True)\<rparr> =
     Inr ((init 3)\<lparr>paused := PBool True\<rparr>) \<and>
   iv_on_message (init 4) \<lparr>topic = ''plotter/pause'', body = Some (PBool True)\<rparr> =
     Inr ((init 4)\<lparr>paused := PBool True\<rparr>) \<and>
   shown (it_on_message ((init 3)\<lparr>paused := PBool True\<rparr>) (it_msg [0.6, 0.005, 100, 0] 0.1)) =
     shown (it_on_message (init 3) (it_msg [0.6, 0.005, 100, 0] 0.1)) \<and>
   shown (iv_on_message ((init 4)\<lparr>paused := PBool True\<rparr>) (iv_msg [[0.6, 0.005, 12, 0]] 0.1)) =
     shown (iv_on_message (init 4) (iv_msg [[0.6, 0.005, 12, 0]] 0.1))"
proof -
  let ?P = "\<lparr>topic = ''plotter/pause'', body = Some (PBool True)\<rparr> :: real list mqtt_msg"
  let ?P' = "\<lparr>topic = ''plotter/pause'', body = Some (PBool True)\<rparr>
               :: pynum list list mqtt_msg"
  have h: "topic ?P = ''plotter/pause''" "body ?P = Some (PBool True)"
    "topic ?P' = ''plotter/pause''" "body ?P' = Some (PBool True)"
    by simp_all
  have tp: "topic (it_msg [0.6, 0.005, 100, 0] 0.1) \<noteq> ''plotter/pause''"
    "topic (iv_msg [[0.6, 0.005, 12, 0]] 0.1) \<noteq> ''plotter/pause''"
    by (simp_all add: it_msg_def iv_msg_def data_msg_def)
  note t = pause_only_flag [OF h, of "init 3" "init 4"]
  show ?thesis
    using t tp by (simp add: shown_paused)
qed

subsection \<open>Row counts of the overwrite\<close>

text \<open>
  C9. A sweep whose row count differs from the stored series' is not always refused: a
  sweep of one row is broadcast by numpy to every stored row. Here a series of two rows
  takes a sweep of one row.
\<close>

theorem one_row_sweep_is_stored:
  "shown (run iv_on_message (init 4)
     [iv_msg [[0.5, 0.001, 1, 0], [0.6, 0.002, 2, 0]] 0.1,
      iv_msg [[0.7, 0.003, 3, 0]] 0.1]) =
   Inr [[Fin 0.5, Fin 10, Fin 0.7, Fin 30], [Fin 0.6, Fin 20, Fin 0.7, Fin 30]]"
  by (simp add: shown_def iv_on_message_def iv_msg_def data_msg_def init_def process_iv_def
        rectangular_def np_array_def append_col_def cols_0_4_def np_append_axis1_def np_zeros_def
        assign_from_col_2_def broadcast_def len_def alloc_def push_latest_def fold_in_def publish_def
        series_def np_empty_def Let_def numeral_2_eq_2)

text \<open>
  C9, as amended. In a well-formed state whose series is not empty, a non-clear sweep of
  four-field rows is folded in when it has as many rows as the series (row by row) or
  exactly one row (that row goes to every stored row). For every other row count the
  assignment raises \<^verbatim>\<open>ValueError\<close>; the snapshot and the arrays are then as before.
\<close>

theorem overwrite_row_counts:
  assumes "wf 4 s"
    and "topic m = ''data/raw/iv_measurement''" and "body m = Some (PDict pl)"
    and "clear pl = Some False"
    and "data pl = Some d" and "d \<noteq> []" and "\<forall>r \<in> set d. length r = 4"
    and "pixel_area pl = Some A"
    and "len (series s (latest s)) \<noteq> 0"
  shows "(length d = len (series s (latest s)) \<longrightarrow>
           (\<exists>s'. iv_on_message s m = Inr s' \<and>
              rows (series s' (latest s')) =
                map2 (\<lambda>old r. [old ! 0, old ! 1, iv_bias r, iv_j A r])
                  (rows (series s (latest s))) (np_array d)))
       \<and> (length d = 1 \<longrightarrow>
           (\<exists>s'. iv_on_message s m = Inr s' \<and>
              rows (series s' (latest s')) =
                map (\<lambda>old. [old ! 0, old ! 1, iv_bias (hd (np_array d)), iv_j A (hd (np_array d))])
                  (rows (series s (latest s)))))
       \<and> (length d \<noteq> len (series s (latest s)) \<and> length d \<noteq> 1 \<longrightarrow>
           (\<exists>s'. iv_on_message s m = Inl (ValueError, s') \<and>
              latest s' = latest s \<and> heap s' = heap s))"
proof (intro conjI impI)
  note step = iv_data_step [OF assms(1-8) refl refl refl]
  have r: "data_ref (latest s) < length (heap s)" using assms(1) by (simp add: wf_def)
  {
    assume e: "length d = len (series s (latest s))"
    have "map2 (\<lambda>r v. [r ! 0, r ! 1, v ! 0, v ! 1]) (rows (series s (latest s)))
             (map (\<lambda>r. [iv_bias r, iv_j A r]) (np_array d)) =
           map2 (\<lambda>old r. [old ! 0, old ! 1, iv_bias r, iv_j A r])
             (rows (series s (latest s))) (np_array d)"
      by (simp add: map2_map_right)
    then show "\<exists>s'. iv_on_message s m = Inr s' \<and>
              rows (series s' (latest s')) =
                map2 (\<lambda>old r. [old ! 0, old ! 1, iv_bias r, iv_j A r])
                  (rows (series s (latest s))) (np_array d)"
      using step e assms(9) r by (simp add: series_def broadcast_def np_array_length)
  }
  {
    assume e: "length d = 1"
    have n: "np_array d \<noteq> []" using assms(6) by (simp add: np_array_empty)
    have b: "broadcast (len (series s (latest s)))
               (map (\<lambda>r. [iv_bias r, iv_j A r]) (np_array d)) =
          replicate (length (rows (series s (latest s))))
            [iv_bias (hd (np_array d)), iv_j A (hd (np_array d))]"
      using broadcast_single [of "map (\<lambda>r. [iv_bias r, iv_j A r]) (np_array d)"
          "len (series s (latest s))"] e n
      by (simp add: hd_map len_def np_array_length)
    show "\<exists>s'. iv_on_message s m = Inr s' \<and>
              rows (series s' (latest s')) =
                map (\<lambda>old. [old ! 0, old ! 1, iv_bias (hd (np_array d)), iv_j A (hd (np_array d))])
                  (rows (series s (latest s)))"
      using step e assms(9) r unfolding b map2_replicate_right
      by (simp add: series_def)
  }
  {
    assume "length d \<noteq> len (series s (latest s)) \<and> length d \<noteq> 1"
    then show "\<exists>s'. iv_on_message s m = Inl (ValueError, s') \<and>
              latest s' = latest s \<and> heap s' = heap s"
      using step assms(9) by simp
  }
qed

text \<open>
  For example, a series of two rows refuses a sweep of three rows, and the chart still
  reads the series as it was.
\<close>

theorem overwrite_row_counts_example:
  "shown (run iv_on_message (init 4)
     [iv_msg [[0.5, 0.001, 1, 0], [0.6, 0.002, 2, 0]] 0.1,
      iv_msg [[0.7, 0.003, 3, 0], [0.8, 0.004, 4, 0], [0.9, 0.005, 5, 0]] 0.1]) =
   Inl ValueError"
proof -
  let ?m1 = "iv_msg [[0.5, 0.001, 1, 0], [0.6, 0.002, 2, 0]] 0.1"
  let ?m2 = "iv_msg [[0.7, 0.003, 3, 0], [0.8, 0.004, 4, 0], [0.9, 0.005, 5, 0]] 0.1"
  let ?d2 = "map (map (\<lambda>x. PyFloat (Fin x)))
               [[0.7, 0.003, 3, 0], [0.8, 0.004, 4, 0], [0.9, 0.005, 5, 0]]"
  let ?p2 = "\<lparr>clear = Some False, data = Some ?d2, pixel_area = Some 0.1, idn = ''px'',
              config_entry = None\<rparr>"
  obtain s1 where s1: "iv_on_message (init 4) ?m1 = Inr s1" "wf 4 s1"
    "len (series s1 (latest s1)) = 2"
    by (simp add: iv_on_message_def iv_msg_def data_msg_def init_def process_iv_def
          rectangular_def np_array_def append_col_def cols_0_4_def np_append_axis1_def np_zeros_def
          len_def alloc_def push_latest_def fold_in_def publish_def series_def np_empty_def wf_def
          Let_def numeral_2_eq_2)
  have h2: "topic ?m2 = ''data/raw/iv_measurement''" "body ?m2 = Some (PDict ?p2)"
    "clear ?p2 = Some False" "data ?p2 = Some ?d2" "?d2 \<noteq> []"
    "\<forall>r \<in> set ?d2. length r = 4" "pixel_area ?p2 = Some 0.1"
    by (simp_all add: iv_msg_def data_msg_def)
  have n: "len (series s1 (latest s1)) \<noteq> 0" using s1(3) by simp
  have l: "length ?d2 \<noteq> len (series s1 (latest s1)) \<and> length ?d2 \<noteq> 1" using s1(3) by simp
  from overwrite_row_counts [OF s1(2) h2 n, THEN conjunct2, THEN conjunct2, rule_format, OF l]
  obtain s' where "iv_on_message s1 ?m2 = Inl (ValueError, s')" by blast
  then show ?thesis using s1(1) by (simp add: shown_def)
qed

subsection \<open>The index of the current density\<close>

text \<open>
  C10. The current-vs-time handler reads the current density back at the fixed index 4
  of the list \<^verbatim>\<open>process_ivt\<close> returns, where \<open>j\<close> stands at the index \<open>length d\<close>. The
  two agree exactly when the raw data has four fields: then the new row holds \<open>j\<close> and
  the raw time \<^verbatim>\<open>data[2]\<close>. With three fields index 4 is the power \<open>p\<close>, with five or
  more it is the raw field \<^verbatim>\<open>data[4]\<close>, and with two or fewer an index lookup raises
  \<^verbatim>\<open>IndexError\<close>.
\<close>

theorem it_reads_index_4:
  assumes "wf 3 s"
    and "topic m = ''data/raw/it_measurement''" and "body m = Some (PDict pl)"
    and "clear pl = Some False"
    and "data pl = Some d" and "pixel_area pl = Some A" and "A \<noteq> 0"
  shows "(length d = 4 \<longrightarrow>
           (\<exists>s'. it_on_message s m = Inr s' \<and>
              last (rows (series s' (latest s'))) ! 1 = d ! 1 * 1000 / A \<and>
              last (rows (series s' (latest s'))) ! 2 = d ! 2))
       \<and> (length d = 3 \<longrightarrow>
           (\<exists>s'. it_on_message s m = Inr s' \<and>
              last (rows (series s' (latest s'))) ! 1 = d ! 0 * (d ! 1 * 1000 / A)))
       \<and> (5 \<le> length d \<longrightarrow>
           (\<exists>s'. it_on_message s m = Inr s' \<and>
              last (rows (series s' (latest s'))) ! 1 = d ! 4))
       \<and> (length d \<le> 2 \<longrightarrow> (\<exists>s'. it_on_message s m = Inl (IndexError, s')))"
proof -
  define pdata where "pdata = d @ [d ! 1 * 1000 / A, d ! 0 * (d ! 1 * 1000 / A)]"
  define xs where "xs = rows (series s (latest s)) @ [[0, pdata ! 4, d ! 2]]"
  have ok: "\<exists>s'. it_on_message s m = Inr s' \<and>
              last (rows (series s' (latest s'))) ! 1 = pdata ! 4 \<and>
              last (rows (series s' (latest s'))) ! 2 = d ! 2" if "3 \<le> length d"
    using it_data_step [OF assms(1-5) that assms(6,7) pdata_def xs_def]
    by (simp add: series_def last_map xs_def)
  have short: "\<exists>s'. it_on_message s m = Inl (IndexError, s')" if "length d \<le> 2"
  proof (cases "length d = 2")
    case True
    then have "process_ivt pl ''it_measurement'' s =
        Inr (pdata, pl\<lparr>data := Some pdata\<rparr>,
             publish ''data/processed/it_measurement'' (pl\<lparr>data := Some pdata\<rparr>) s)"
      using process_ivt_ok [of pl d A "''it_measurement''" s] assms(5-7)
      by (simp add: pdata_def)
    moreover have "it_accumulate (series s (latest s)) pdata = Inl IndexError"
      using True by (simp add: it_accumulate_def pdata_def)
    ultimately show ?thesis using assms(2-4) by (simp add: it_on_message_def)
  next
    case False
    then have "process_ivt pl ''it_measurement'' s = Inl IndexError"
      using that assms(5,6) by (simp add: process_ivt_def)
    then show ?thesis using assms(2-4) by (simp add: it_on_message_def)
  qed
  have "length d = 4 \<Longrightarrow> pdata ! 4 = d ! 1 * 1000 / A"
    and "length d = 3 \<Longrightarrow> pdata ! 4 = d ! 0 * (d ! 1 * 1000 / A)"
    and "5 \<le> length d \<Longrightarrow> pdata ! 4 = d ! 4"
    by (simp_all add: pdata_def nth_append)
  then show ?thesis using ok short by force
qed

text \<open>
  For example, a payload of three fields (the status is missing) stores the power 30
  where the current density 50 belongs, and a payload of two fields raises.
\<close>

theorem it_reads_index_4_example:
  "shown (it_on_message (init 3) (it_msg [0.6, 0.005, 100] 0.1)) = Inr [[0, 30, 100]] \<and>
   shown (it_on_message (init 3) (it_msg [0.6, 0.005] 0.1)) = Inl IndexError"
proof -
  let ?m = "it_msg [0.6, 0.005, 100] 0.1"
  let ?m2 = "it_msg [0.6, 0.005] 0.1"
  let ?p2 = "\<lparr>clear = Some False, data = Some [0.6, 0.005], pixel_area = Some 0.1,
              idn = ''px'', config_entry = None\<rparr> :: real list payload"
  have h2: "topic ?m2 = ''data/raw/it_measurement''" "body ?m2 = Some (PDict ?p2)"
    "clear ?p2 = Some False" "data ?p2 = Some [0.6, 0.005]" "pixel_area ?p2 = Some 0.1"
    "(0.1::real) \<noteq> 0"
    by (simp_all add: it_msg_def data_msg_def)
  have "\<exists>s'. it_on_message (init 3) ?m2 = Inl (IndexError, s')"
    using it_reads_index_4 [OF wf_init h2] by simp
  then have "shown (it_on_message (init 3) ?m2) = Inl IndexError"
    by (auto simp: shown_def)
  moreover have "shown (it_on_message (init 3) ?m) = Inr [[0, 30, 100]]"
    by (simp add: shown_def it_on_message_def it_msg_def data_msg_def init_def
          process_ivt_def it_accumulate_def np_append_axis0_def t_scale_def alloc_def
          push_latest_def fold_in_def publish_def series_def np_empty_def Let_def)
  ultimately show ?thesis by simp
qed

end
